theory Spec2Isabelle
  imports Complex_Main
begin

section \<open>Data model\<close>

text \<open>
  The three scripts read a NumPy array \<^verbatim>\<open>fire_map\<close> of shape \<open>(T, H, W)\<close> and a
  configuration dictionary. The array is modelled with its shape written out (an array with
  \<open>T = 0\<close> still has a height and a width), its entries as unbounded integers. Python floats
  are modelled as real numbers: rounding is outside the model. The frame index \<open>t\<close> stored
  into the \<^verbatim>\<open>int32\<close> burn-time matrix is modelled as an unbounded integer (a stack has far
  fewer than \<open>2^31\<close> snapshots).
\<close>

datatype py_error = ValueError | IndexError | KeyError | ZeroDivisionError

text \<open>A raised exception ends the computation: the rest runs only on a returned value.\<close>

definition bind_err :: "py_error + 'a \<Rightarrow> ('a \<Rightarrow> py_error + 'b) \<Rightarrow> py_error + 'b" where
  "bind_err m f = (case m of Inl e \<Rightarrow> Inl e | Inr a \<Rightarrow> f a)"

type_synonym matrix = "int list list"

record fire_map =
  dim_t :: nat
  dim_h :: nat
  dim_w :: nat
  cells :: "matrix list"

text \<open>The shape invariant of an array: \<open>T\<close> frames of \<open>H\<close> rows of \<open>W\<close> entries.\<close>

definition well_shaped :: "fire_map \<Rightarrow> bool" where
  "well_shaped fm \<longleftrightarrow>
     length (cells fm) = dim_t fm \<and>
     (\<forall>f \<in> set (cells fm). length f = dim_h fm \<and> (\<forall>r \<in> set f. length r = dim_w fm))"

text \<open>The state domain: 0 unburned, 1 burning, 2 burned.\<close>

definition valid_states :: "fire_map \<Rightarrow> bool" where
  "valid_states fm \<longleftrightarrow>
     (\<forall>f \<in> set (cells fm). \<forall>r \<in> set f. \<forall>s \<in> set r. s = 0 \<or> s = 1 \<or> s = 2)"

section \<open>Burn-time reduction\<close>

text \<open>\<^verbatim>\<open>np.full((h, w), v)\<close>.\<close>

definition np_full :: "nat \<Rightarrow> nat \<Rightarrow> int \<Rightarrow> matrix" where
  "np_full h w v = replicate h (replicate w v)"

text \<open>
  The loop body, the same in all three scripts:
  \<^verbatim>\<open>newly_burning = (fire_map[t] >= 1) & (burn_time == -1); burn_time[newly_burning] = t\<close>.
\<close>

definition mark_newly_burning :: "int \<Rightarrow> matrix \<Rightarrow> matrix \<Rightarrow> matrix" where
  "mark_newly_burning t frame burn_time =
     map2 (\<lambda>frow brow. map2 (\<lambda>s b. if 1 \<le> s \<and> b = - 1 then t else b) frow brow)
       frame burn_time"

text \<open>\<^verbatim>\<open>for t in range(fire_map.shape[0]): ...\<close>\<close>

definition burn_time_loop :: "fire_map \<Rightarrow> matrix \<Rightarrow> matrix" where
  "burn_time_loop fm burn_time =
     fold (\<lambda>t bt. mark_newly_burning (int t) (cells fm ! t) bt) [0..<dim_t fm] burn_time"

text \<open>\<^verbatim>\<open>FireSimulationVisualizer._compute_burn_time_matrix\<close> (visualize_openstreetmap.py).\<close>

definition compute_burn_time_matrix :: "fire_map \<Rightarrow> matrix" where
  "compute_burn_time_matrix fm = burn_time_loop fm (np_full (dim_h fm) (dim_w fm) (- 1))"

text \<open>The burn-time matrix of \<^verbatim>\<open>export_to_geojson\<close> (export_geojson.py, lines 103-108).\<close>

definition export_burn_time :: "fire_map \<Rightarrow> matrix" where
  "export_burn_time fm =
     (let grid_height = dim_h fm; grid_width = dim_w fm
      in burn_time_loop fm (np_full grid_height grid_width (- 1)))"

section \<open>Grid-to-geography projection\<close>


text \<open>The attributes that \<^verbatim>\<open>_setup_coordinates\<close> stores on the object.\<close>

record coords =
  center_lat :: real
  center_lon :: real
  grid_height :: int
  grid_width :: int
  pixel_scale_m :: real
  area_width_m :: real
  area_height_m :: real
  meters_per_deg_lat :: real
  meters_per_deg_lon :: real
  delta_lat :: real
  delta_lon :: real
  north_lat :: real
  south_lat :: real
  west_lon :: real
  east_lon :: real




text \<open>
  \<^verbatim>\<open>FireSimulationVisualizer.pixel_to_latlon\<close> (visualize_openstreetmap.py): the corner of the
  cell. Dividing by a zero grid size raises.
\<close>

definition pixel_to_latlon :: "coords \<Rightarrow> int \<Rightarrow> int \<Rightarrow> py_error + (real \<times> real)" where
  "pixel_to_latlon self x y =
     (if grid_width self = 0 then Inl ZeroDivisionError
      else let lon = west_lon self + (of_int x / of_int (grid_width self)) * delta_lon self
           in if grid_height self = 0 then Inl ZeroDivisionError
              else let lat = north_lat self
                               - (of_int y / of_int (grid_height self)) * delta_lat self
                   in Inr (lat, lon))"

text \<open>
  \<^verbatim>\<open>FireAnimationGenerator.pixel_to_latlon\<close> (animate_fire_spread.py): the centre of the cell.
\<close>

definition anim_pixel_to_latlon :: "coords \<Rightarrow> int \<Rightarrow> int \<Rightarrow> py_error + (real \<times> real)" where
  "anim_pixel_to_latlon self x y =
     (if grid_width self = 0 then Inl ZeroDivisionError
      else let lon = west_lon self
                       + ((of_int x + 0.5) / of_int (grid_width self)) * delta_lon self
           in if grid_height self = 0 then Inl ZeroDivisionError
              else let lat = north_lat self
                               - ((of_int y + 0.5) / of_int (grid_height self)) * delta_lat self
                   in Inr (lat, lon))"

text \<open>
  \<^verbatim>\<open>FireSimulationVisualizer.get_pixel_bounds\<close>: \<^verbatim>\<open>[[se_lat, nw_lon], [nw_lat, se_lon]]\<close>,
  that is \<open>((south, west), (north, east))\<close>.
\<close>

definition get_pixel_bounds ::
  "coords \<Rightarrow> int \<Rightarrow> int \<Rightarrow> py_error + ((real \<times> real) \<times> (real \<times> real))" where
  "get_pixel_bounds self x y =
     bind_err (pixel_to_latlon self x y) (\<lambda>(nw_lat, nw_lon).
     bind_err (pixel_to_latlon self (x + 1) (y + 1)) (\<lambda>(se_lat, se_lon).
       Inr ((se_lat, nw_lon), (nw_lat, se_lon))))"




section \<open>Frame sampling\<close>

text \<open>\<^verbatim>\<open>range(start, stop, step)\<close>: a zero step raises \<^verbatim>\<open>ValueError\<close>.\<close>

definition py_range :: "int \<Rightarrow> int \<Rightarrow> int \<Rightarrow> py_error + int list" where
  "py_range start stop step =
     (if step = 0 then Inl ValueError
      else if 0 < step
      then Inr (map (\<lambda>k. start + int k * step) [0..<nat ((stop - start + step - 1) div step)])
      else Inr (map (\<lambda>k. start + int k * step)
                  [0..<nat ((start - stop - step - 1) div (- step))]))"

text \<open>\<^verbatim>\<open>range(n)\<close>.\<close>

definition py_range1 :: "int \<Rightarrow> int list" where
  "py_range1 n = map int [0..<nat n]"

text \<open>A \<^verbatim>\<open>for\<close> loop with a state; an exception in the body leaves the loop.\<close>

fun for_loop :: "'i list \<Rightarrow> ('i \<Rightarrow> 's \<Rightarrow> py_error + 's) \<Rightarrow> 's \<Rightarrow> py_error + 's" where
  "for_loop [] body s = Inr s"
| "for_loop (i # is) body s = bind_err (body i s) (for_loop is body)"

text \<open>
  An index into an axis of size \<open>n\<close>: negative indices count from the end, anything outside
  \<open>-n .. n-1\<close> raises \<^verbatim>\<open>IndexError\<close>.
\<close>

definition np_index :: "nat \<Rightarrow> int \<Rightarrow> py_error + nat" where
  "np_index n i =
     (if - int n \<le> i \<and> i < int n then Inr (nat (if i < 0 then i + int n else i))
      else Inl IndexError)"

text \<open>\<^verbatim>\<open>fire_map[t]\<close> and \<^verbatim>\<open>frame[y, x]\<close>.\<close>

definition frame_at :: "fire_map \<Rightarrow> int \<Rightarrow> py_error + matrix" where
  "frame_at fm t = bind_err (np_index (dim_t fm) t) (\<lambda>i. Inr (cells fm ! i))"

definition index2 :: "nat \<Rightarrow> nat \<Rightarrow> matrix \<Rightarrow> int \<Rightarrow> int \<Rightarrow> py_error + int" where
  "index2 h w m y x =
     bind_err (np_index h y) (\<lambda>i. bind_err (np_index w x) (\<lambda>j. Inr (m ! i ! j)))"

record frame_sample =
  time :: int
  burning :: "(real \<times> real) list"
  burned_count :: int
  burning_count :: int

text \<open>
  The body of the two inner loops of \<^verbatim>\<open>prepare_animation_data\<close>: the state is the pair
  \<^verbatim>\<open>(burning_pixels, burned_pixels)\<close>.
\<close>

definition classify_cell ::
  "coords \<Rightarrow> fire_map \<Rightarrow> matrix \<Rightarrow> int \<Rightarrow> int \<Rightarrow> (real \<times> real) list \<times> (real \<times> real) list
     \<Rightarrow> py_error + ((real \<times> real) list \<times> (real \<times> real) list)" where
  "classify_cell self fm frame y x acc =
     bind_err (index2 (dim_h fm) (dim_w fm) frame y x) (\<lambda>status.
       if status = 1
       then bind_err (anim_pixel_to_latlon self x y) (\<lambda>p. Inr (fst acc @ [p], snd acc))
       else if status = 2
       then bind_err (anim_pixel_to_latlon self x y) (\<lambda>p. Inr (fst acc, snd acc @ [p]))
       else Inr acc)"

definition scan_frame ::
  "coords \<Rightarrow> fire_map \<Rightarrow> matrix \<Rightarrow> py_error + ((real \<times> real) list \<times> (real \<times> real) list)" where
  "scan_frame self fm frame =
     for_loop (py_range1 (grid_height self))
       (\<lambda>y. for_loop (py_range1 (grid_width self)) (\<lambda>x. classify_cell self fm frame y x))
       ([], [])"

text \<open>Lines 85-109: the list \<^verbatim>\<open>frames_data\<close>.\<close>

definition sample_frames :: "coords \<Rightarrow> fire_map \<Rightarrow> int \<Rightarrow> py_error + frame_sample list" where
  "sample_frames self fm sample_rate =
     (let total_frames = int (dim_t fm)
      in bind_err (py_range 0 total_frames sample_rate) (\<lambda>ts.
           for_loop ts
             (\<lambda>t frames_data.
                bind_err (frame_at fm t) (\<lambda>frame.
                bind_err (scan_frame self fm frame) (\<lambda>(burning_pixels, burned_pixels).
                  Inr (frames_data @
                        [\<lparr>time = t, burning = burning_pixels,
                          burned_count = int (length burned_pixels),
                          burning_count = int (length burning_pixels)\<rparr>]))))
             []))"

text \<open>
  Lines 112-115. Here the matrix takes its shape from the configuration, not from the array,
  so the mask \<^verbatim>\<open>(fire_map[t] >= 1) & (burn_time_matrix == -1)\<close> is broadcast: an axis of the
  frame and the matrix must agree or one of them be 1 (\<^verbatim>\<open>ValueError\<close> otherwise), and the
  assignment through the mask needs the mask to have the matrix's shape (\<^verbatim>\<open>IndexError\<close>
  otherwise). \<^verbatim>\<open>np.full\<close> refuses a negative dimension.
\<close>

definition np_full_checked :: "int \<Rightarrow> int \<Rightarrow> int \<Rightarrow> py_error + matrix" where
  "np_full_checked h w v =
     (if h < 0 \<or> w < 0 then Inl ValueError else Inr (np_full (nat h) (nat w) v))"

definition mark_newly_burning_bc ::
  "int \<Rightarrow> nat \<Rightarrow> nat \<Rightarrow> matrix \<Rightarrow> nat \<Rightarrow> nat \<Rightarrow> matrix \<Rightarrow> py_error + matrix" where
  "mark_newly_burning_bc t h w frame gh gw bt =
     (if \<not> (h = gh \<or> h = 1 \<or> gh = 1) \<or> \<not> (w = gw \<or> w = 1 \<or> gw = 1) then Inl ValueError
      else if (gh = 1 \<and> h \<noteq> 1) \<or> (gw = 1 \<and> w \<noteq> 1) then Inl IndexError
      else Inr (map (\<lambda>y. map (\<lambda>x.
                  if 1 \<le> frame ! (if h = 1 then 0 else y) ! (if w = 1 then 0 else x)
                     \<and> bt ! y ! x = - 1
                  then t else bt ! y ! x) [0..<gw]) [0..<gh]))"

definition anim_burn_time_matrix :: "coords \<Rightarrow> fire_map \<Rightarrow> py_error + matrix" where
  "anim_burn_time_matrix self fm =
     bind_err (np_full_checked (grid_height self) (grid_width self) (- 1)) (\<lambda>bt0.
       for_loop [0..<dim_t fm]
         (\<lambda>t bt. mark_newly_burning_bc (int t) (dim_h fm) (dim_w fm) (cells fm ! t)
                    (nat (grid_height self)) (nat (grid_width self)) bt)
         bt0)"

text \<open>Lines 118-128: the list \<^verbatim>\<open>burned_pixels_with_time\<close> of \<open>(lat, lon, time)\<close>.\<close>

definition burned_pixels_with_time ::
  "coords \<Rightarrow> matrix \<Rightarrow> py_error + (real \<times> real \<times> int) list" where
  "burned_pixels_with_time self burn_time_matrix =
     for_loop (py_range1 (grid_height self))
       (\<lambda>y. for_loop (py_range1 (grid_width self))
          (\<lambda>x acc.
             bind_err (index2 (nat (grid_height self)) (nat (grid_width self))
                         burn_time_matrix y x) (\<lambda>bt.
               if 0 \<le> bt
               then bind_err (anim_pixel_to_latlon self x y) (\<lambda>(lat, lon).
                      Inr (acc @ [(lat, lon, bt)]))
               else Inr acc)))
       []"

record animation_data =
  anim_frames :: "frame_sample list"
  anim_total_frames :: int
  anim_sample_rate :: int
  anim_burned_pixels :: "(real \<times> real \<times> int) list"
  anim_bounds :: "real \<times> real \<times> real \<times> real"
  anim_center :: "real \<times> real"
  anim_pixel_size :: "real \<times> real"
  anim_grid :: "int \<times> int"

text \<open>
  \<^verbatim>\<open>FireAnimationGenerator.prepare_animation_data\<close>. The fields are the keys of the
  returned dictionary: \<open>bounds\<close> is \<open>(north, south, east, west)\<close>, \<open>center\<close> is \<open>(lat, lon)\<close>,
  \<open>pixel_size\<close> is \<open>(lat, lon)\<close> and \<open>grid\<close> is \<open>(width, height)\<close>. The two divisions of
  \<open>pixel_size\<close> raise on an empty grid.
\<close>

definition prepare_animation_data :: "coords \<Rightarrow> fire_map \<Rightarrow> int \<Rightarrow> py_error + animation_data" where
  "prepare_animation_data self fm sample_rate =
     bind_err (sample_frames self fm sample_rate) (\<lambda>frames_data.
     bind_err (anim_burn_time_matrix self fm) (\<lambda>burn_time_matrix.
     bind_err (burned_pixels_with_time self burn_time_matrix) (\<lambda>burned.
       if grid_height self = 0 then Inl ZeroDivisionError
       else if grid_width self = 0 then Inl ZeroDivisionError
       else Inr \<lparr>anim_frames = frames_data,
                 anim_total_frames = int (dim_t fm),
                 anim_sample_rate = sample_rate,
                 anim_burned_pixels = burned,
                 anim_bounds = (north_lat self, south_lat self, east_lon self, west_lon self),
                 anim_center = (center_lat self, center_lon self),
                 anim_pixel_size = (delta_lat self / of_int (grid_height self),
                               delta_lon self / of_int (grid_width self)),
                 anim_grid = (grid_width self, grid_height self)\<rparr>)))"

text \<open>
  For the statements about the sampler: the cells of frame \<open>t\<close> whose state is \<open>v\<close>, as
  \<open>(x, y)\<close> pairs in row-major order.
\<close>

definition cells_with_state :: "fire_map \<Rightarrow> nat \<Rightarrow> int \<Rightarrow> (int \<times> int) list" where
  "cells_with_state fm t v =
     concat (map (\<lambda>y. map (\<lambda>x. (int x, int y))
                         (filter (\<lambda>x. cells fm ! t ! y ! x = v) [0..<dim_w fm]))
               [0..<dim_h fm])"

section \<open>Colour mapping and normalisation\<close>

text \<open>Python's \<^verbatim>\<open>a / b\<close> and \<^verbatim>\<open>int(x)\<close> (truncation towards zero).\<close>

definition true_div :: "int \<Rightarrow> int \<Rightarrow> py_error + real" where
  "true_div a b = (if b = 0 then Inl ZeroDivisionError else Inr (of_int a / of_int b))"

definition py_int :: "real \<Rightarrow> int" where
  "py_int r = (if 0 \<le> r then \<lfloor>r\<rfloor> else \<lceil>r\<rceil>)"

text \<open>\<^verbatim>\<open>time_to_color_rgb\<close> (export_geojson.py).\<close>

definition time_to_color_rgb :: "int \<Rightarrow> int \<Rightarrow> py_error + (int \<times> int \<times> int)" where
  "time_to_color_rgb burn_time max_time =
     (if burn_time < 0 \<or> max_time \<le> 0 then Inr (128, 128, 128)
      else bind_err (true_div burn_time max_time) (\<lambda>t.
             if t < 0.5 then Inr (255, py_int (255 * (t * 2)), 0)
             else Inr (255, 255, py_int (255 * ((t - 0.5) * 2)))))"

text \<open>
  The property \<^verbatim>\<open>burn_time_normalized\<close> of a feature (export_geojson.py, line 131):
  \<^verbatim>\<open>float(bt / max_time) if max_time > 0 else 0\<close>.
\<close>

definition burn_time_normalized :: "int \<Rightarrow> int \<Rightarrow> py_error + real" where
  "burn_time_normalized bt max_time = (if 0 < max_time then true_div bt max_time else Inr 0)"

text \<open>
  The interpolation parameter of \<^verbatim>\<open>time_to_color\<close> (visualize_openstreetmap.py, line 176):
  \<^verbatim>\<open>t = burn_time / max_time if max_time > 0 else 0\<close>.
\<close>

definition normalized_time :: "int \<Rightarrow> int \<Rightarrow> py_error + real" where
  "normalized_time burn_time max_time =
     (if 0 < max_time then true_div burn_time max_time else Inr 0)"

text \<open>The colour maps of \<^verbatim>\<open>time_to_color\<close> (lines 179-212), as \<open>(r, g, b)\<close>.\<close>

definition colormap_rgb :: "string \<Rightarrow> real \<Rightarrow> int \<times> int \<times> int" where
  "colormap_rgb colormap t =
     (if colormap = ''YlOrRd'' then
        (if t < 0.5
         then (255, py_int (255 - (255 - 165) * (t * 2)), py_int (200 * (1 - t * 2)))
         else (py_int (255 - (255 - 139) * ((t - 0.5) * 2)),
               py_int (165 * (1 - (t - 0.5) * 2)), 0))
      else if colormap = ''inferno'' then
        (if t < 0.25 then (py_int (t * 4 * 120), 0, py_int (t * 4 * 150))
         else if t < 0.5
         then (py_int (120 + (255 - 120) * ((t - 0.25) * 4)),
               py_int ((t - 0.25) * 4 * 100),
               py_int (150 * (1 - (t - 0.25) * 4)))
         else if t < 0.75 then (255, py_int (100 + (200 - 100) * ((t - 0.5) * 4)), 0)
         else (255, py_int (200 + (255 - 200) * ((t - 0.75) * 4)),
               py_int ((t - 0.75) * 4 * 150)))
      else (let intensity = 1 - t
            in (py_int (139 + (255 - 139) * intensity),
                py_int (69 * (1 - intensity)),
                py_int (19 * (1 - intensity)))))"

text \<open>
  The format \<^verbatim>\<open>{v:02x}\<close>: lower-case hexadecimal, padded with zeros to two characters,
  a minus sign first for a negative number.
\<close>

definition hex_digit :: "nat \<Rightarrow> char" where
  "hex_digit d = ''0123456789abcdef'' ! d"

fun hex_digits :: "nat \<Rightarrow> string" where
  "hex_digits n = (if n < 16 then [hex_digit n] else hex_digits (n div 16) @ [hex_digit (n mod 16)])"

declare hex_digits.simps [simp del]

definition format_02x :: "int \<Rightarrow> string" where
  "format_02x v =
     (if v < 0 then CHR ''-'' # hex_digits (nat (- v))
      else let ds = hex_digits (nat v) in replicate (2 - length ds) CHR ''0'' @ ds)"

definition hex_color :: "int \<times> int \<times> int \<Rightarrow> string" where
  "hex_color c = (case c of (r, g, b) \<Rightarrow> CHR ''#'' # format_02x r @ format_02x g @ format_02x b)"

text \<open>
  \<^verbatim>\<open>FireSimulationVisualizer.time_to_color\<close>: \<^verbatim>\<open>None\<close> for a cell that never burned.
\<close>

definition time_to_color :: "int \<Rightarrow> int \<Rightarrow> string \<Rightarrow> py_error + string option" where
  "time_to_color burn_time max_time colormap =
     (if burn_time < 0 then Inr None
      else bind_err (normalized_time burn_time max_time) (\<lambda>t.
             Inr (Some (hex_color (colormap_rgb colormap t)))))"

text \<open>\<^verbatim>\<open>m.max()\<close>: \<^verbatim>\<open>ValueError\<close> on an array without elements.\<close>

definition matrix_max :: "matrix \<Rightarrow> py_error + int" where
  "matrix_max m = (case concat m of [] \<Rightarrow> Inl ValueError | v # vs \<Rightarrow> Inr (fold max vs v))"

section \<open>Summary statistics\<close>

text \<open>\<^verbatim>\<open>(m == v).sum()\<close>.\<close>

definition count_eq :: "matrix \<Rightarrow> int \<Rightarrow> int" where
  "count_eq m v = sum_list (map (\<lambda>row. int (length (filter (\<lambda>s. s = v) row))) m)"

record statistics =
  stat_total_pixels :: int
  stat_burned_pixels :: int
  stat_burned_percentage :: real
  stat_area_total_ha :: real
  stat_area_burned_ha :: real
  stat_simulation_frames :: int
  stat_max_burn_time :: int
  stat_bounds :: "real \<times> real \<times> real \<times> real"

text \<open>
  \<^verbatim>\<open>FireSimulationVisualizer.get_statistics\<close>. \<^verbatim>\<open>fire_map[-1]\<close> raises on an empty stack and
  \<^verbatim>\<open>burn_time_matrix.max()\<close> on an empty grid; the division by \<^verbatim>\<open>total_pixels\<close> is a NumPy
  division, which does not raise, and its divisor is zero only on an empty grid, where
  \<^verbatim>\<open>max()\<close> raises. \<open>stat_bounds\<close> is \<open>(north, south, east, west)\<close>.
\<close>

definition get_statistics :: "coords \<Rightarrow> fire_map \<Rightarrow> py_error + statistics" where
  "get_statistics self fm =
     bind_err (frame_at fm (- 1)) (\<lambda>last_frame.
       let burned_pixels = count_eq last_frame 2;
           total_pixels = int (dim_h fm * dim_w fm);
           area_per_pixel = (pixel_scale_m self)\<^sup>2 / 10000
       in bind_err (matrix_max (compute_burn_time_matrix fm)) (\<lambda>max_burn_time.
            Inr \<lparr>stat_total_pixels = total_pixels,
                 stat_burned_pixels = burned_pixels,
                 stat_burned_percentage = of_int burned_pixels / of_int total_pixels * 100,
                 stat_area_total_ha = of_int total_pixels * area_per_pixel,
                 stat_area_burned_ha = of_int burned_pixels * area_per_pixel,
                 stat_simulation_frames = int (dim_t fm),
                 stat_max_burn_time = max_burn_time,
                 stat_bounds = (north_lat self, south_lat self, east_lon self, west_lon self)\<rparr>))"

section \<open>Example inputs\<close>

text \<open>The scenario of the specification: a \<open>2 \<times> 2\<close> grid over three frames.\<close>

definition scenario_map :: fire_map where
  "scenario_map = \<lparr>dim_t = 3, dim_h = 2, dim_w = 2,
     cells = [[[0, 0], [0, 0]], [[1, 0], [0, 0]], [[2, 1], [0, 0]]]\<rparr>"


text \<open>The same stack, except that the cell \<open>(0, 0)\<close> is unburned again in the last frame.\<close>

definition scenario_map_later :: fire_map where
  "scenario_map_later = \<lparr>dim_t = 3, dim_h = 2, dim_w = 2,
     cells = [[[0, 0], [0, 0]], [[1, 0], [0, 0]], [[0, 1], [0, 0]]]\<rparr>"

text \<open>The attributes of an object set up from \<open>scenario_config\<close>.\<close>

definition scenario_coords :: coords where
  "scenario_coords = \<lparr>center_lat = 0, center_lon = 0, grid_height = 2, grid_width = 2,
     pixel_scale_m = 30.48, area_width_m = 60.96, area_height_m = 60.96,
     meters_per_deg_lat = 111320, meters_per_deg_lon = 111320,
     delta_lat = 60.96 / 111320, delta_lon = 60.96 / 111320,
     north_lat = 30.48 / 111320, south_lat = - (30.48 / 111320),
     west_lon = - (30.48 / 111320), east_lon = 30.48 / 111320\<rparr>"

text \<open>A stack in which no cell ever ignites.\<close>

definition unburned_map :: fire_map where
  "unburned_map = \<lparr>dim_t = 2, dim_h = 1, dim_w = 2, cells = [[[0, 0]], [[0, 0]]]\<rparr>"

text \<open>A stack of four frames, for the sampling scenario of the specification.\<close>

definition four_frame_map :: fire_map where
  "four_frame_map = \<lparr>dim_t = 4, dim_h = 2, dim_w = 2,
     cells = [[[0, 0], [0, 0]], [[1, 0], [0, 0]], [[2, 1], [0, 0]], [[2, 2], [1, 0]]]\<rparr>"

section \<open>The reduction, cell by cell\<close>

text \<open>
  What the loop does to one cell, as a function of that cell's history \<open>s\<close>
  (\<open>s t\<close> is the cell's state in frame \<open>t\<close>) after \<open>n\<close> iterations.
\<close>

primrec cell_fold :: "(nat \<Rightarrow> int) \<Rightarrow> nat \<Rightarrow> int" where
  "cell_fold s 0 = - 1"
| "cell_fold s (Suc n) = (if 1 \<le> s n \<and> cell_fold s n = - 1 then int n else cell_fold s n)"

lemma cell_fold_range: "cell_fold s n = - 1 \<or> (0 \<le> cell_fold s n \<and> cell_fold s n < int n)"
  by (induction n) auto

lemma cell_fold_unburned: "cell_fold s n = - 1 \<longleftrightarrow> (\<forall>t<n. s t < 1)"
proof (induction n)
  case 0
  show ?case by simp
next
  case (Suc n)
  have r: "cell_fold s n = - 1 \<or> (0 \<le> cell_fold s n \<and> cell_fold s n < int n)"
    by (rule cell_fold_range)
  show ?case
  proof (cases "1 \<le> s n")
    case True
    then have "\<not> (\<forall>t<Suc n. s t < 1)" by (metis lessI not_less)
    moreover have "cell_fold s (Suc n) \<noteq> - 1" using True r by auto
    ultimately show ?thesis by simp
  next
    case False
    then have "cell_fold s (Suc n) = cell_fold s n" by simp
    moreover have "(\<forall>t<Suc n. s t < 1) \<longleftrightarrow> (\<forall>t<n. s t < 1)"
      using False by (auto simp: less_Suc_eq)
    ultimately show ?thesis using Suc.IH by simp
  qed
qed

lemma cell_fold_first:
  assumes "cell_fold s n \<noteq> - 1"
  shows "0 \<le> cell_fold s n \<and> nat (cell_fold s n) < n \<and> 1 \<le> s (nat (cell_fold s n))
         \<and> (\<forall>t<nat (cell_fold s n). s t < 1)"
  using assms
proof (induction n)
  case 0
  then show ?case by simp
next
  case (Suc n)
  show ?case
  proof (cases "cell_fold s n = - 1")
    case True
    with Suc.prems have hot: "1 \<le> s n" by (simp split: if_splits)
    with True have eq: "cell_fold s (Suc n) = int n" by simp
    from True have "\<forall>t<n. s t < 1" by (simp add: cell_fold_unburned)
    with hot eq show ?thesis by simp
  next
    case False
    then have "cell_fold s (Suc n) = cell_fold s n" by simp
    with Suc.IH [OF False] show ?thesis by (simp add: less_Suc_eq)
  qed
qed

lemma cell_fold_Least:
  assumes "cell_fold s n \<noteq> - 1"
  shows "cell_fold s n = int (LEAST t. t < n \<and> 1 \<le> s t)"
proof -
  let ?r = "nat (cell_fold s n)"
  from cell_fold_first [OF assms]
  have a: "0 \<le> cell_fold s n" and b: "?r < n" and c: "1 \<le> s ?r" and d: "\<forall>t<?r. s t < 1"
    by blast+
  have "(LEAST t. t < n \<and> 1 \<le> s t) = ?r"
  proof (rule Least_equality)
    show "?r < n \<and> 1 \<le> s ?r" using b c by simp
  next
    fix t assume "t < n \<and> 1 \<le> s t"
    then show "?r \<le> t" using d by (metis not_less)
  qed
  with a show ?thesis by simp
qed

text \<open>Two histories that agree up to the first ignition have the same result.\<close>

lemma cell_fold_agree:
  assumes "\<forall>t<n. (\<forall>t'<t. s t' < 1) \<longrightarrow> s t = s' t"
  shows "cell_fold s n = cell_fold s' n"
  using assms
proof (induction n)
  case 0
  show ?case by simp
next
  case (Suc n)
  from Suc.prems have "\<forall>t<n. (\<forall>t'<t. s t' < 1) \<longrightarrow> s t = s' t" by auto
  then have IH: "cell_fold s n = cell_fold s' n" by (rule Suc.IH)
  show ?case
  proof (cases "cell_fold s n = - 1")
    case True
    then have "\<forall>t'<n. s t' < 1" by (simp add: cell_fold_unburned)
    with Suc.prems have "s n = s' n" by simp
    with IH show ?thesis by simp
  next
    case False
    with IH show ?thesis by simp
  qed
qed

section \<open>The loop computes the cell fold\<close>

lemma mark_newly_burning_length:
  "length frame = length bt \<Longrightarrow> length (mark_newly_burning t frame bt) = length bt"
  by (simp add: mark_newly_burning_def)

lemma mark_newly_burning_row:
  assumes "length frame = length bt" "y < length bt" "length (frame ! y) = length (bt ! y)"
  shows "length (mark_newly_burning t frame bt ! y) = length (bt ! y)"
  using assms by (simp add: mark_newly_burning_def)

lemma mark_newly_burning_cell:
  assumes "length frame = length bt" "y < length bt" "length (frame ! y) = length (bt ! y)"
    "x < length (bt ! y)"
  shows "mark_newly_burning t frame bt ! y ! x =
         (if 1 \<le> frame ! y ! x \<and> bt ! y ! x = - 1 then t else bt ! y ! x)"
  using assms by (simp add: mark_newly_burning_def)

lemma well_shaped_frame:
  assumes "well_shaped fm" "t < dim_t fm"
  shows "length (cells fm ! t) = dim_h fm"
    and "y < dim_h fm \<Longrightarrow> length (cells fm ! t ! y) = dim_w fm"
proof -
  from assms have mem: "cells fm ! t \<in> set (cells fm)" by (simp add: well_shaped_def)
  with assms show len: "length (cells fm ! t) = dim_h fm" by (simp add: well_shaped_def)
  assume "y < dim_h fm"
  with len have "cells fm ! t ! y \<in> set (cells fm ! t)" by simp
  with assms mem show "length (cells fm ! t ! y) = dim_w fm"
    unfolding well_shaped_def by blast
qed

lemma burn_time_steps:
  assumes wf: "well_shaped fm" and n: "n \<le> dim_t fm"
  defines "bt \<equiv> fold (\<lambda>t bt. mark_newly_burning (int t) (cells fm ! t) bt) [0..<n]
                  (np_full (dim_h fm) (dim_w fm) (- 1))"
  shows "length bt = dim_h fm \<and>
         (\<forall>y<dim_h fm. length (bt ! y) = dim_w fm \<and>
            (\<forall>x<dim_w fm. bt ! y ! x = cell_fold (\<lambda>t. cells fm ! t ! y ! x) n))"
  using n unfolding bt_def
proof (induction n)
  case 0
  show ?case by (simp add: np_full_def)
next
  case (Suc n)
  let ?prev = "fold (\<lambda>t bt. mark_newly_burning (int t) (cells fm ! t) bt) [0..<n]
                 (np_full (dim_h fm) (dim_w fm) (- 1))"
  let ?frame = "cells fm ! n"
  from Suc.prems have n: "n < dim_t fm" and "n \<le> dim_t fm" by simp_all
  with Suc.IH have len: "length ?prev = dim_h fm"
    and rows: "\<And>y. y < dim_h fm \<Longrightarrow> length (?prev ! y) = dim_w fm"
    and vals: "\<And>y x. y < dim_h fm \<Longrightarrow> x < dim_w fm \<Longrightarrow>
                ?prev ! y ! x = cell_fold (\<lambda>t. cells fm ! t ! y ! x) n"
    by simp_all
  have flen: "length ?frame = length ?prev"
    using well_shaped_frame(1) [OF wf n] len by simp
  have frow: "\<And>y. y < dim_h fm \<Longrightarrow> length (?frame ! y) = length (?prev ! y)"
    using well_shaped_frame(2) [OF wf n] rows by simp
  have step: "fold (\<lambda>t bt. mark_newly_burning (int t) (cells fm ! t) bt) [0..<Suc n]
                (np_full (dim_h fm) (dim_w fm) (- 1)) = mark_newly_burning (int n) ?frame ?prev"
    by simp
  show ?case
    unfolding step
  proof (intro conjI allI impI)
    show "length (mark_newly_burning (int n) ?frame ?prev) = dim_h fm"
      using mark_newly_burning_length [OF flen] len by simp
  next
    fix y assume y: "y < dim_h fm"
    show "length (mark_newly_burning (int n) ?frame ?prev ! y) = dim_w fm"
      using mark_newly_burning_row [OF flen, of y] y len frow rows by simp
  next
    fix y x assume y: "y < dim_h fm" and x: "x < dim_w fm"
    have "mark_newly_burning (int n) ?frame ?prev ! y ! x =
            (if 1 \<le> ?frame ! y ! x \<and> ?prev ! y ! x = - 1 then int n else ?prev ! y ! x)"
      using mark_newly_burning_cell [OF flen, of y x] y x len frow rows by simp
    then show "mark_newly_burning (int n) ?frame ?prev ! y ! x =
            cell_fold (\<lambda>t. cells fm ! t ! y ! x) (Suc n)"
      using vals [OF y x] by simp
  qed
qed

lemma compute_burn_time_matrix_shape:
  assumes "well_shaped fm"
  shows "length (compute_burn_time_matrix fm) = dim_h fm"
    and "y < dim_h fm \<Longrightarrow> length (compute_burn_time_matrix fm ! y) = dim_w fm"
  using burn_time_steps [OF assms order_refl]
  by (simp_all add: compute_burn_time_matrix_def burn_time_loop_def)

lemma compute_burn_time_matrix_cell:
  assumes "well_shaped fm" "y < dim_h fm" "x < dim_w fm"
  shows "compute_burn_time_matrix fm ! y ! x = cell_fold (\<lambda>t. cells fm ! t ! y ! x) (dim_t fm)"
  using burn_time_steps [OF assms(1) order_refl] assms(2,3)
  by (simp add: compute_burn_time_matrix_def burn_time_loop_def)

lemma export_burn_time_eq: "export_burn_time fm = compute_burn_time_matrix fm"
  by (simp add: export_burn_time_def compute_burn_time_matrix_def)

lemma valid_states_cell:
  assumes "well_shaped fm" "valid_states fm" "t < dim_t fm" "y < dim_h fm" "x < dim_w fm"
  shows "cells fm ! t ! y ! x = 0 \<or> cells fm ! t ! y ! x = 1 \<or> cells fm ! t ! y ! x = 2"
proof -
  from assms have f: "cells fm ! t \<in> set (cells fm)" by (simp add: well_shaped_def)
  from assms have r: "cells fm ! t ! y \<in> set (cells fm ! t)"
    by (simp add: well_shaped_frame(1))
  from assms have s: "cells fm ! t ! y ! x \<in> set (cells fm ! t ! y)"
    by (simp add: well_shaped_frame(2))
  from assms(2) f r s show ?thesis unfolding valid_states_def by blast
qed

section \<open>Example inputs, evaluated\<close>

lemma scenario_map_well_shaped: "well_shaped scenario_map"
  by (simp add: well_shaped_def scenario_map_def)

lemma scenario_map_valid: "valid_states scenario_map"
  by (simp add: valid_states_def scenario_map_def)

lemma scenario_burn_time: "compute_burn_time_matrix scenario_map = [[1, 2], [- 1, - 1]]"
  by code_simp

lemma scenario_map_later_well_shaped: "well_shaped scenario_map_later"
  by (simp add: well_shaped_def scenario_map_later_def)

section \<open>Burn-time reduction: first ignition\<close>

text \<open>
  Claim C1. For a stack of shape \<open>(T, H, W)\<close> whose cells are 0, 1 or 2, the burn-time
  matrix (the one of the map script and the one of the GeoJSON exporter, which are equal) has
  shape \<open>(H, W)\<close>, and at every cell \<open>(y, x)\<close> it holds \<open>-1\<close> if the cell is 0 in every frame
  and otherwise the least frame index \<open>t < T\<close> at which the cell's state is at least 1; so the
  state at that index is at least 1 and the state in every earlier frame is 0.
\<close>

theorem burn_time_first_ignition:
  assumes wf: "well_shaped fm" and vs: "valid_states fm"
    and y: "y < dim_h fm" and x: "x < dim_w fm"
  shows "export_burn_time fm = compute_burn_time_matrix fm \<and>
         length (compute_burn_time_matrix fm) = dim_h fm \<and>
         length (compute_burn_time_matrix fm ! y) = dim_w fm \<and>
         (if \<forall>t<dim_t fm. cells fm ! t ! y ! x = 0
          then compute_burn_time_matrix fm ! y ! x = - 1
          else compute_burn_time_matrix fm ! y ! x
                 = int (LEAST t. t < dim_t fm \<and> 1 \<le> cells fm ! t ! y ! x)
               \<and> 0 \<le> compute_burn_time_matrix fm ! y ! x
               \<and> nat (compute_burn_time_matrix fm ! y ! x) < dim_t fm
               \<and> 1 \<le> cells fm ! nat (compute_burn_time_matrix fm ! y ! x) ! y ! x
               \<and> (\<forall>t'<nat (compute_burn_time_matrix fm ! y ! x). cells fm ! t' ! y ! x = 0))"
proof -
  let ?s = "\<lambda>t. cells fm ! t ! y ! x"
  let ?r = "compute_burn_time_matrix fm ! y ! x"
  have r: "?r = cell_fold ?s (dim_t fm)"
    by (rule compute_burn_time_matrix_cell [OF wf y x])
  have dom: "?s t = 0 \<or> ?s t = 1 \<or> ?s t = 2" if "t < dim_t fm" for t
    by (rule valid_states_cell [OF wf vs that y x])
  have zero: "?s t < 1 \<longleftrightarrow> ?s t = 0" if "t < dim_t fm" for t
    using dom [OF that] by linarith
  have unburned: "?r = - 1 \<longleftrightarrow> (\<forall>t<dim_t fm. ?s t = 0)"
    unfolding r cell_fold_unburned using zero by blast
  have shape: "export_burn_time fm = compute_burn_time_matrix fm \<and>
         length (compute_burn_time_matrix fm) = dim_h fm \<and>
         length (compute_burn_time_matrix fm ! y) = dim_w fm"
    using export_burn_time_eq [of fm] compute_burn_time_matrix_shape [OF wf] y by blast
  show ?thesis
  proof (cases "\<forall>t<dim_t fm. ?s t = 0")
    case True
    with unburned have "?r = - 1" by blast
    with shape show ?thesis unfolding if_P [OF True] by blast
  next
    case False
    with unburned have "?r \<noteq> - 1" by blast
    then have ne: "cell_fold ?s (dim_t fm) \<noteq> - 1" unfolding r .
    have a: "?r = int (LEAST t. t < dim_t fm \<and> 1 \<le> ?s t)"
      unfolding r by (rule cell_fold_Least [OF ne])
    from cell_fold_first [OF ne]
    have b: "0 \<le> ?r" and c: "nat ?r < dim_t fm" and d: "1 \<le> ?s (nat ?r)"
      and e: "\<forall>t'<nat ?r. ?s t' < 1"
      unfolding r by blast+
    have f: "\<forall>t'<nat ?r. ?s t' = 0"
    proof (intro allI impI)
      fix t' assume t': "t' < nat ?r"
      with c have "t' < dim_t fm" by simp
      from zero [OF this] e t' show "?s t' = 0" by blast
    qed
    from shape a b c d f show ?thesis unfolding if_not_P [OF False] by blast
  qed
qed

theorem burn_time_first_ignition_witness:
  "well_shaped scenario_map \<and> valid_states scenario_map
   \<and> (0::nat) < dim_h scenario_map \<and> (1::nat) < dim_w scenario_map
   \<and> \<not> (\<forall>t<dim_t scenario_map. cells scenario_map ! t ! 0 ! 1 = 0)
   \<and> compute_burn_time_matrix scenario_map ! 0 ! 1 = 2
   \<and> compute_burn_time_matrix scenario_map ! 0 ! 1
        = int (LEAST t. t < dim_t scenario_map \<and> 1 \<le> cells scenario_map ! t ! 0 ! 1)
   \<and> 1 \<le> cells scenario_map ! nat (compute_burn_time_matrix scenario_map ! 0 ! 1) ! 0 ! 1
   \<and> cells scenario_map ! 0 ! 0 ! 1 = 0 \<and> cells scenario_map ! 1 ! 0 ! 1 = 0"
proof -
  have h: "(0::nat) < dim_h scenario_map" "(1::nat) < dim_w scenario_map"
    by (simp_all add: scenario_map_def)
  have ign: "\<not> (\<forall>t<dim_t scenario_map. cells scenario_map ! t ! 0 ! 1 = 0)"
  proof
    assume "\<forall>t<dim_t scenario_map. cells scenario_map ! t ! 0 ! 1 = 0"
    then have "2 < dim_t scenario_map \<longrightarrow> cells scenario_map ! 2 ! 0 ! 1 = 0" by (rule spec)
    then show False by (simp add: scenario_map_def)
  qed
  have v: "compute_burn_time_matrix scenario_map ! 0 ! 1 = 2"
    by (simp add: scenario_burn_time)
  note first = burn_time_first_ignition
    [OF scenario_map_well_shaped scenario_map_valid h, unfolded if_not_P [OF ign]]
  have before: "cells scenario_map ! 0 ! 0 ! 1 = 0" "cells scenario_map ! 1 ! 0 ! 1 = 0"
    by (simp_all add: scenario_map_def)
  from first ign v before scenario_map_well_shaped scenario_map_valid h
  show ?thesis by blast
qed

section \<open>Burn-time reduction: later states do not matter\<close>

text \<open>
  Claim C5. Two stacks of the same shape that agree, at every cell, on every frame up to and
  including the first one in which the cell's state is at least 1 (so on every frame, for a
  cell that never gets there) have the same burn-time matrix: what a cell does after its first
  ignition does not change the result.
\<close>

theorem burn_time_ignores_later_states:
  assumes wfa: "well_shaped a" and wfb: "well_shaped b"
    and shape: "dim_t b = dim_t a" "dim_h b = dim_h a" "dim_w b = dim_w a"
    and agree: "\<forall>y<dim_h a. \<forall>x<dim_w a. \<forall>t<dim_t a.
                  (\<forall>t'<t. cells a ! t' ! y ! x < 1) \<longrightarrow> cells a ! t ! y ! x = cells b ! t ! y ! x"
  shows "compute_burn_time_matrix a = compute_burn_time_matrix b
         \<and> export_burn_time a = export_burn_time b"
proof -
  have eq: "compute_burn_time_matrix a = compute_burn_time_matrix b"
  proof (rule nth_equalityI)
    show "length (compute_burn_time_matrix a) = length (compute_burn_time_matrix b)"
      using compute_burn_time_matrix_shape(1) [OF wfa] compute_burn_time_matrix_shape(1) [OF wfb]
        shape by simp
  next
    fix y assume "y < length (compute_burn_time_matrix a)"
    then have y: "y < dim_h a" using compute_burn_time_matrix_shape(1) [OF wfa] by simp
    then have yb: "y < dim_h b" using shape by simp
    show "compute_burn_time_matrix a ! y = compute_burn_time_matrix b ! y"
    proof (rule nth_equalityI)
      show "length (compute_burn_time_matrix a ! y) = length (compute_burn_time_matrix b ! y)"
        using compute_burn_time_matrix_shape(2) [OF wfa y]
          compute_burn_time_matrix_shape(2) [OF wfb yb] shape by simp
    next
      fix x assume "x < length (compute_burn_time_matrix a ! y)"
      then have x: "x < dim_w a" using compute_burn_time_matrix_shape(2) [OF wfa y] by simp
      then have xb: "x < dim_w b" using shape by simp
      have "cell_fold (\<lambda>t. cells a ! t ! y ! x) (dim_t a)
              = cell_fold (\<lambda>t. cells b ! t ! y ! x) (dim_t a)"
        by (rule cell_fold_agree) (use agree y x in blast)
      then show "compute_burn_time_matrix a ! y ! x = compute_burn_time_matrix b ! y ! x"
        using compute_burn_time_matrix_cell [OF wfa y x]
          compute_burn_time_matrix_cell [OF wfb yb xb] shape by simp
    qed
  qed
  then show ?thesis by (simp add: export_burn_time_eq)
qed

theorem burn_time_ignores_later_states_witness:
  "well_shaped scenario_map \<and> well_shaped scenario_map_later
   \<and> scenario_map \<noteq> scenario_map_later
   \<and> compute_burn_time_matrix scenario_map = compute_burn_time_matrix scenario_map_later
   \<and> export_burn_time scenario_map = export_burn_time scenario_map_later"
proof -
  have shape: "dim_t scenario_map_later = dim_t scenario_map"
    "dim_h scenario_map_later = dim_h scenario_map"
    "dim_w scenario_map_later = dim_w scenario_map"
    by (simp_all add: scenario_map_def scenario_map_later_def)
  have agree: "\<forall>y<dim_h scenario_map. \<forall>x<dim_w scenario_map. \<forall>t<dim_t scenario_map.
      (\<forall>t'<t. cells scenario_map ! t' ! y ! x < 1) \<longrightarrow>
      cells scenario_map ! t ! y ! x = cells scenario_map_later ! t ! y ! x"
    by (simp add: scenario_map_def scenario_map_later_def All_less_Suc
        numeral_2_eq_2 numeral_3_eq_3)
  have diff: "scenario_map \<noteq> scenario_map_later"
    by (simp add: scenario_map_def scenario_map_later_def)
  from burn_time_ignores_later_states
    [OF scenario_map_well_shaped scenario_map_later_well_shaped shape agree] diff
  show ?thesis
    using scenario_map_well_shaped scenario_map_later_well_shaped by simp
qed

section \<open>Projection: the set-up and the three implementations\<close>





lemma pixel_to_latlon_ok:
  assumes "grid_width self \<noteq> 0" "grid_height self \<noteq> 0"
  shows "pixel_to_latlon self x y =
           Inr (north_lat self - (of_int y / of_int (grid_height self)) * delta_lat self,
                west_lon self + (of_int x / of_int (grid_width self)) * delta_lon self)"
  using assms by (simp add: pixel_to_latlon_def)

lemma anim_pixel_to_latlon_ok:
  assumes "grid_width self \<noteq> 0" "grid_height self \<noteq> 0"
  shows "anim_pixel_to_latlon self x y =
           Inr (north_lat self - ((of_int y + 0.5) / of_int (grid_height self)) * delta_lat self,
                west_lon self + ((of_int x + 0.5) / of_int (grid_width self)) * delta_lon self)"
  using assms by (simp add: anim_pixel_to_latlon_def)

lemma get_pixel_bounds_ok:
  assumes "grid_width self \<noteq> 0" "grid_height self \<noteq> 0"
  shows "get_pixel_bounds self x y =
           Inr ((north_lat self - (of_int (y + 1) / of_int (grid_height self)) * delta_lat self,
                 west_lon self + (of_int x / of_int (grid_width self)) * delta_lon self),
                (north_lat self - (of_int y / of_int (grid_height self)) * delta_lat self,
                 west_lon self + (of_int (x + 1) / of_int (grid_width self)) * delta_lon self))"
  unfolding get_pixel_bounds_def pixel_to_latlon_ok [OF assms]
  by (simp add: bind_err_def)

section \<open>Projection: the corners of the bounding box\<close>



section \<open>Projection: cell bounds tile the grid\<close>

text \<open>
  Claim C3. For every cell \<open>(x, y)\<close> of the grid, the east edge of its bounds is the west edge
  of the bounds of \<open>(x + 1, y)\<close> and its south edge is the north edge of the bounds of
  \<open>(x, y + 1)\<close>; with positive extents each cell has a positive width and height, so
  neighbours meet in an edge and nowhere else. The two equalities hold between results of the
  same expression on the same arguments: they use no law of arithmetic.
\<close>

theorem cell_bounds_tile:
  assumes x: "0 \<le> x" "x < grid_width self" and y: "0 \<le> y" "y < grid_height self"
  shows "\<exists>s w n e. get_pixel_bounds self x y = Inr ((s, w), (n, e))
           \<and> (\<exists>s' n' e'. get_pixel_bounds self (x + 1) y = Inr ((s', e), (n', e')))
           \<and> (\<exists>w' e' s'. get_pixel_bounds self x (y + 1) = Inr ((s', w'), (s, e')))
           \<and> (0 < delta_lon self \<longrightarrow> w < e)
           \<and> (0 < delta_lat self \<longrightarrow> s < n)"
proof -
  from x y have nz: "grid_width self \<noteq> 0" "grid_height self \<noteq> 0" by simp_all
  from x y have pos: "0 < (of_int (grid_width self) :: real)" "0 < (of_int (grid_height self) :: real)"
    by simp_all
  have w: "0 < delta_lon self \<Longrightarrow>
      west_lon self + (of_int x / of_int (grid_width self)) * delta_lon self
        < west_lon self + (of_int (x + 1) / of_int (grid_width self)) * delta_lon self"
    using pos(1) by (simp add: divide_strict_right_mono)
  have h: "0 < delta_lat self \<Longrightarrow>
      north_lat self - (of_int (y + 1) / of_int (grid_height self)) * delta_lat self
        < north_lat self - (of_int y / of_int (grid_height self)) * delta_lat self"
    using pos(2) by (simp add: divide_strict_right_mono)
  show ?thesis
    unfolding get_pixel_bounds_ok [OF nz] using w h by blast
qed

theorem cell_bounds_tile_witness:
  "(0::int) \<le> 0 \<and> 0 < grid_width scenario_coords \<and> (0::int) \<le> 1 \<and> 1 < grid_height scenario_coords
   \<and> (\<exists>s w n e. get_pixel_bounds scenario_coords 0 1 = Inr ((s, w), (n, e))
        \<and> (\<exists>s' n' e'. get_pixel_bounds scenario_coords (0 + 1) 1 = Inr ((s', e), (n', e')))
        \<and> (\<exists>w' e' s'. get_pixel_bounds scenario_coords 0 (1 + 1) = Inr ((s', w'), (s, e')))
        \<and> (0 < delta_lon scenario_coords \<longrightarrow> w < e)
        \<and> (0 < delta_lat scenario_coords \<longrightarrow> s < n))
   \<and> 0 < delta_lon scenario_coords \<and> 0 < delta_lat scenario_coords"
proof -
  have h: "(0::int) \<le> 0" "0 < grid_width scenario_coords" "(0::int) \<le> 1"
    "1 < grid_height scenario_coords"
    by (simp_all add: scenario_coords_def)
  have d: "0 < delta_lon scenario_coords" "0 < delta_lat scenario_coords"
    by (simp_all add: scenario_coords_def)
  from cell_bounds_tile [OF h] h d show ?thesis by blast
qed

section \<open>Projection: one formula, three implementations\<close>



section \<open>Colour mapping: sentinel and end points\<close>

lemma hex_colors:
  "hex_color (255, 255, 200) = ''#ffffc8''"
  "hex_color (139, 0, 0) = ''#8b0000''"
  "hex_color (0, 0, 0) = ''#000000''"
  "hex_color (255, 255, 150) = ''#ffff96''"
  "hex_color (255, 0, 0) = ''#ff0000''"
  "hex_color (139, 69, 19) = ''#8b4513''"
  by code_simp+

lemma py_int_of_int [simp]: "py_int (of_int k) = k"
  by (simp add: py_int_def)

lemma py_int_numeral [simp]: "py_int (numeral k) = numeral k" "py_int 0 = 0" "py_int 1 = 1"
  by (simp_all add: py_int_def)

lemma normalized_time_start: "1 \<le> m \<Longrightarrow> normalized_time 0 m = Inr 0"
  by (simp add: normalized_time_def true_div_def)

lemma normalized_time_end: "1 \<le> m \<Longrightarrow> normalized_time m m = Inr 1"
  by (simp add: normalized_time_def true_div_def)

lemma colormap_rgb_ends:
  "colormap_rgb ''YlOrRd'' 0 = (255, 255, 200)"
  "colormap_rgb ''YlOrRd'' 1 = (139, 0, 0)"
  "colormap_rgb ''inferno'' 0 = (0, 0, 0)"
  "colormap_rgb ''inferno'' 1 = (255, 255, 150)"
  "colormap \<noteq> ''YlOrRd'' \<Longrightarrow> colormap \<noteq> ''inferno'' \<Longrightarrow> colormap_rgb colormap 0 = (255, 0, 0)"
  "colormap \<noteq> ''YlOrRd'' \<Longrightarrow> colormap \<noteq> ''inferno'' \<Longrightarrow> colormap_rgb colormap 1 = (139, 69, 19)"
  by (simp_all add: colormap_rgb_def Let_def)

text \<open>
  Claim C7. For every \<open>max_time\<close>, a cell that never ignited (\<open>burn_time = -1\<close>) gets the
  fixed unburned value, grey \<open>(128, 128, 128)\<close> in the exporter and \<^verbatim>\<open>None\<close> in the map
  script, whatever the colour map; and for every \<open>max_time \<ge> 1\<close> the colours of
  \<open>burn_time = 0\<close> and of \<open>burn_time = max_time\<close> are the first and the last anchor colour of
  the gradient, the same for every \<open>max_time\<close>: red and white in the exporter, and in the map
  script light yellow and dark red (\<^verbatim>\<open>YlOrRd\<close>), black and pale yellow (\<^verbatim>\<open>inferno\<close>), red
  and brown (any other name).
\<close>

theorem color_sentinel_and_endpoints:
  "time_to_color_rgb (- 1) max_time = Inr (128, 128, 128)
   \<and> time_to_color (- 1) max_time colormap = Inr None
   \<and> (1 \<le> max_time \<longrightarrow>
        time_to_color_rgb 0 max_time = Inr (255, 0, 0)
        \<and> time_to_color_rgb max_time max_time = Inr (255, 255, 255)
        \<and> time_to_color 0 max_time ''YlOrRd'' = Inr (Some ''#ffffc8'')
        \<and> time_to_color max_time max_time ''YlOrRd'' = Inr (Some ''#8b0000'')
        \<and> time_to_color 0 max_time ''inferno'' = Inr (Some ''#000000'')
        \<and> time_to_color max_time max_time ''inferno'' = Inr (Some ''#ffff96'')
        \<and> (colormap \<noteq> ''YlOrRd'' \<and> colormap \<noteq> ''inferno'' \<longrightarrow>
              time_to_color 0 max_time colormap = Inr (Some ''#ff0000'')
              \<and> time_to_color max_time max_time colormap = Inr (Some ''#8b4513'')))"
proof -
  have sentinel: "time_to_color_rgb (- 1) max_time = Inr (128, 128, 128)"
    "time_to_color (- 1) max_time colormap = Inr None"
    by (simp_all add: time_to_color_rgb_def time_to_color_def)
  have rgb: "time_to_color_rgb 0 max_time = Inr (255, 0, 0)"
    "time_to_color_rgb max_time max_time = Inr (255, 255, 255)" if "1 \<le> max_time"
    using that by (simp_all add: time_to_color_rgb_def true_div_def bind_err_def)
  have col: "time_to_color 0 max_time cm = Inr (Some (hex_color (colormap_rgb cm 0)))"
    "time_to_color max_time max_time cm = Inr (Some (hex_color (colormap_rgb cm 1)))"
    if "1 \<le> max_time" for cm
    using that
    by (simp_all add: time_to_color_def normalized_time_start normalized_time_end bind_err_def)
  show ?thesis
    using sentinel rgb col by (simp add: colormap_rgb_ends hex_colors)
qed

theorem color_sentinel_and_endpoints_witness:
  "(1::int) \<le> 2 \<and> ''Reds'' \<noteq> ''YlOrRd'' \<and> ''Reds'' \<noteq> ''inferno''
   \<and> time_to_color_rgb (- 1) 2 = Inr (128, 128, 128)
   \<and> time_to_color (- 1) 2 ''Reds'' = Inr None
   \<and> time_to_color_rgb 0 2 = Inr (255, 0, 0)
   \<and> time_to_color_rgb 2 2 = Inr (255, 255, 255)
   \<and> time_to_color 0 2 ''YlOrRd'' = Inr (Some ''#ffffc8'')
   \<and> time_to_color 2 2 ''YlOrRd'' = Inr (Some ''#8b0000'')
   \<and> time_to_color 0 2 ''inferno'' = Inr (Some ''#000000'')
   \<and> time_to_color 2 2 ''inferno'' = Inr (Some ''#ffff96'')
   \<and> time_to_color 0 2 ''Reds'' = Inr (Some ''#ff0000'')
   \<and> time_to_color 2 2 ''Reds'' = Inr (Some ''#8b4513'')"
  using color_sentinel_and_endpoints [of 2 "''Reds''"] by simp

section \<open>Normalisation without division by zero\<close>

lemma fold_max_const: "\<forall>a \<in> set xs. a = v \<Longrightarrow> fold max xs (v::int) = v"
proof (induction xs)
  case Nil
  show ?case by simp
next
  case (Cons x xs)
  then have "x = v" and "\<forall>a \<in> set xs. a = v" by simp_all
  with Cons.IH show ?case by simp
qed

lemma matrix_max_np_full:
  assumes "0 < h" "0 < w"
  shows "matrix_max (np_full h w v) = Inr v"
proof -
  from assms(1) obtain h' where h: "h = Suc h'" by (auto simp: gr0_conv_Suc)
  from assms(2) obtain w' where w: "w = Suc w'" by (auto simp: gr0_conv_Suc)
  let ?rest = "replicate w' v @ concat (replicate h' (replicate (Suc w') v))"
  have c: "concat (np_full h w v) = v # ?rest"
    unfolding np_full_def h w by simp
  have "set ?rest \<subseteq> {v}"
    by (auto simp: set_replicate_conv_if)
  then have "\<forall>a \<in> set ?rest. a = v" by blast
  then have "fold max ?rest v = v" by (rule fold_max_const)
  with c show ?thesis by (simp add: matrix_max_def)
qed

lemma unburned_matrix:
  assumes wf: "well_shaped fm"
    and cold: "\<forall>t<dim_t fm. \<forall>y<dim_h fm. \<forall>x<dim_w fm. cells fm ! t ! y ! x < 1"
  shows "compute_burn_time_matrix fm = np_full (dim_h fm) (dim_w fm) (- 1)"
proof (rule nth_equalityI)
  show "length (compute_burn_time_matrix fm) = length (np_full (dim_h fm) (dim_w fm) (- 1))"
    using compute_burn_time_matrix_shape(1) [OF wf] by (simp add: np_full_def)
next
  fix y assume "y < length (compute_burn_time_matrix fm)"
  then have y: "y < dim_h fm" using compute_burn_time_matrix_shape(1) [OF wf] by simp
  show "compute_burn_time_matrix fm ! y = np_full (dim_h fm) (dim_w fm) (- 1) ! y"
  proof (rule nth_equalityI)
    show "length (compute_burn_time_matrix fm ! y) = length (np_full (dim_h fm) (dim_w fm) (- 1) ! y)"
      using compute_burn_time_matrix_shape(2) [OF wf y] y by (simp add: np_full_def)
  next
    fix x assume "x < length (compute_burn_time_matrix fm ! y)"
    then have x: "x < dim_w fm" using compute_burn_time_matrix_shape(2) [OF wf y] by simp
    have "cell_fold (\<lambda>t. cells fm ! t ! y ! x) (dim_t fm) = - 1"
      unfolding cell_fold_unburned using cold y x by blast
    then show "compute_burn_time_matrix fm ! y ! x = np_full (dim_h fm) (dim_w fm) (- 1) ! y ! x"
      using compute_burn_time_matrix_cell [OF wf y x] y x by (simp add: np_full_def)
  qed
qed

lemma unburned_map_well_shaped: "well_shaped unburned_map"
  by (simp add: well_shaped_def unburned_map_def)

text \<open>
  Claim C8, as the code has it. The normalised burn time (the \<^verbatim>\<open>burn_time_normalized\<close>
  property of the exporter and the interpolation parameter \<open>t\<close> of the map script) and both
  colour functions return a value for every input, so no division by zero is raised; whenever
  \<open>max_time \<le> 0\<close> the normalised burn time is 0. When no cell of a non-empty grid ever
  ignites, \<open>max_time\<close>, the maximum of the burn-time matrix, is \<open>-1\<close>.
\<close>

theorem normalization_never_divides_by_zero:
  "(\<exists>v. burn_time_normalized bt max_time = Inr v)
   \<and> (\<exists>v. normalized_time bt max_time = Inr v)
   \<and> (\<exists>c. time_to_color_rgb bt max_time = Inr c)
   \<and> (\<exists>c. time_to_color bt max_time colormap = Inr c)
   \<and> (max_time \<le> 0 \<longrightarrow>
        burn_time_normalized bt max_time = Inr 0 \<and> normalized_time bt max_time = Inr 0)
   \<and> (well_shaped fm \<and> 0 < dim_h fm \<and> 0 < dim_w fm
        \<and> (\<forall>t<dim_t fm. \<forall>y<dim_h fm. \<forall>x<dim_w fm. cells fm ! t ! y ! x < 1) \<longrightarrow>
        matrix_max (compute_burn_time_matrix fm) = Inr (- 1)
        \<and> matrix_max (export_burn_time fm) = Inr (- 1))"
proof -
  have a: "\<exists>v. burn_time_normalized bt max_time = Inr v"
    by (simp add: burn_time_normalized_def true_div_def)
  have b: "\<exists>v. normalized_time bt max_time = Inr v"
    by (simp add: normalized_time_def true_div_def)
  have c: "\<exists>c. time_to_color_rgb bt max_time = Inr c"
    by (simp add: time_to_color_rgb_def true_div_def bind_err_def)
  from b have d: "\<exists>c. time_to_color bt max_time colormap = Inr c"
    by (auto simp: time_to_color_def bind_err_def)
  have e: "max_time \<le> 0 \<longrightarrow>
        burn_time_normalized bt max_time = Inr 0 \<and> normalized_time bt max_time = Inr 0"
    by (simp add: burn_time_normalized_def normalized_time_def)
  have f: "matrix_max (compute_burn_time_matrix fm) = Inr (- 1)
        \<and> matrix_max (export_burn_time fm) = Inr (- 1)"
    if "well_shaped fm" "0 < dim_h fm" "0 < dim_w fm"
      "\<forall>t<dim_t fm. \<forall>y<dim_h fm. \<forall>x<dim_w fm. cells fm ! t ! y ! x < 1"
    using unburned_matrix [OF that(1,4)] matrix_max_np_full [OF that(2,3)]
    by (simp add: export_burn_time_eq)
  from a b c d e f show ?thesis by blast
qed

theorem normalization_never_divides_by_zero_witness:
  "(0::int) \<le> 0 \<and> well_shaped unburned_map \<and> 0 < dim_h unburned_map \<and> 0 < dim_w unburned_map
   \<and> burn_time_normalized 0 0 = Inr 0 \<and> normalized_time 0 0 = Inr 0
   \<and> matrix_max (compute_burn_time_matrix unburned_map) = Inr (- 1)
   \<and> matrix_max (export_burn_time unburned_map) = Inr (- 1)"
proof -
  have h: "0 < dim_h unburned_map" "0 < dim_w unburned_map"
    by (simp_all add: unburned_map_def)
  have cold: "\<forall>t<dim_t unburned_map. \<forall>y<dim_h unburned_map. \<forall>x<dim_w unburned_map.
         cells unburned_map ! t ! y ! x < 1"
    by (simp add: unburned_map_def All_less_Suc numeral_2_eq_2)
  from normalization_never_divides_by_zero [of 0 0 "''YlOrRd''" unburned_map]
    unburned_map_well_shaped h cold
  show ?thesis by simp
qed

text \<open>
  Claim C8 as stated says that \<open>max_time\<close> is 0 when no cell ever ignites. On the stack
  \<open>unburned_map\<close> both scripts compute \<open>max_time = -1\<close>.
\<close>

theorem unburned_max_time_counterexample:
  "matrix_max (export_burn_time unburned_map) = Inr (- 1)
   \<and> matrix_max (compute_burn_time_matrix unburned_map) = Inr (- 1)
   \<and> matrix_max (export_burn_time unburned_map) \<noteq> Inr 0
   \<and> matrix_max (compute_burn_time_matrix unburned_map) \<noteq> Inr 0"
  by code_simp

section \<open>Loops and indexing\<close>

lemma bind_err_Inr [simp]: "bind_err (Inr a) f = f a"
  by (simp add: bind_err_def)

lemma bind_err_Inl [simp]: "bind_err (Inl e) f = Inl e"
  by (simp add: bind_err_def)

lemma for_loop_pure:
  assumes "\<And>i s. i \<in> set xs \<Longrightarrow> body i s = Inr (f i s)"
  shows "for_loop xs body s = Inr (fold f xs s)"
  using assms by (induction xs arbitrary: s) simp_all

lemma for_loop_append:
  "for_loop (xs @ ys) body s = bind_err (for_loop xs body s) (for_loop ys body)"
  by (induction xs arbitrary: s) (simp_all add: bind_err_def split: sum.splits)

lemma for_loop_collect:
  assumes "\<And>i acc. i \<in> set xs \<Longrightarrow> body i acc = Inr (acc @ [g i])"
  shows "for_loop xs body acc = Inr (acc @ map g xs)"
  using assms by (induction xs arbitrary: acc) simp_all

lemma np_index_nat: "i < n \<Longrightarrow> np_index n (int i) = Inr i"
  by (simp add: np_index_def)

lemma index2_nat: "y < h \<Longrightarrow> x < w \<Longrightarrow> index2 h w m (int y) (int x) = Inr (m ! y ! x)"
  by (simp add: index2_def np_index_nat)

lemma range_count:
  assumes s: "0 < s"
  shows "k < nat ((int T + s - 1) div s) \<longleftrightarrow> int k * s < int T"
proof
  assume "k < nat ((int T + s - 1) div s)"
  then have "int k + 1 \<le> (int T + s - 1) div s" by linarith
  then have "(int k + 1) * s \<le> ((int T + s - 1) div s) * s"
    using s by (simp add: mult_right_mono)
  also have "\<dots> \<le> int T + s - 1"
  proof -
    have "((int T + s - 1) div s) * s + (int T + s - 1) mod s = int T + s - 1" by simp
    moreover have "0 \<le> (int T + s - 1) mod s" using s by simp
    ultimately show ?thesis by linarith
  qed
  finally show "int k * s < int T" by (simp add: algebra_simps)
next
  assume "int k * s < int T"
  then have "(int k + 1) * s \<le> int T + s - 1" by (simp add: algebra_simps)
  then have "((int k + 1) * s) div s \<le> (int T + s - 1) div s"
    using s by (rule zdiv_mono1)
  with s have "int k + 1 \<le> (int T + s - 1) div s" by simp
  then show "k < nat ((int T + s - 1) div s)" by linarith
qed

lemma py_range_positive:
  assumes s: "0 < s"
  shows "py_range 0 (int T) s = Inr (filter (\<lambda>t. t mod s = 0) (map int [0..<T]))"
proof -
  let ?n = "nat ((int T + s - 1) div s)"
  let ?l = "map (\<lambda>k. int k * s) [0..<?n]"
  let ?r = "filter (\<lambda>t. t mod s = 0) (map int [0..<T])"
  have "sorted_wrt (\<lambda>x y. int x * s < int y * s) [0..<?n]"
    using s by (simp add: sorted_wrt_iff_nth_less)
  then have sl: "sorted_wrt (<) ?l" by (simp add: sorted_wrt_map)
  have "sorted_wrt (<) (map int [0..<T])"
    by (simp add: sorted_wrt_map sorted_wrt_iff_nth_less)
  then have sr: "sorted_wrt (<) ?r" by (rule sorted_wrt_filter)
  have "set ?l = set ?r"
  proof (intro set_eqI iffI)
    fix t assume "t \<in> set ?l"
    then obtain k where k: "k < ?n" and t: "t = int k * s" by auto
    from k have lt: "int k * s < int T" by (simp add: range_count [OF s])
    from s have "0 \<le> int k * s" by simp
    with lt have "nat (int k * s) < T" "int (nat (int k * s)) = int k * s" by simp_all
    then have "int k * s \<in> int ` {0..<T}" by (metis atLeastLessThan_iff imageI le0)
    with t show "t \<in> set ?r" by simp
  next
    fix t assume "t \<in> set ?r"
    then obtain j where j: "j < T" and t: "t = int j" and m: "int j mod s = 0" by auto
    from m have "int j = (int j div s) * s" by auto
    moreover have "0 \<le> int j div s" using s by (simp add: pos_imp_zdiv_nonneg_iff)
    ultimately have e: "int j = int (nat (int j div s)) * s" by simp
    with j have "nat (int j div s) < ?n" by (simp add: range_count [OF s])
    with e t show "t \<in> set ?l" by (metis (no_types, lifting) atLeastLessThan_iff imageI le0 set_map set_upt)
  qed
  with sl sr have "?l = ?r" by (metis strict_sorted_equal)
  with s show ?thesis by (simp add: py_range_def)
qed

lemma py_range_zero: "py_range start stop 0 = Inl ValueError"
  by (simp add: py_range_def)

lemma py_range_negative: "s < 0 \<Longrightarrow> py_range 0 (int T) s = Inr []"
proof -
  assume s: "s < 0"
  have "(0 - int T - s - 1) div (- s) \<le> 0"
  proof -
    have "0 - int T - s - 1 \<le> - s - 1" by simp
    then have "(0 - int T - s - 1) div (- s) \<le> (- s - 1) div (- s)"
      using s by (intro zdiv_mono1) simp_all
    moreover have "(- s - 1) div (- s) = 0"
      using s by (intro div_pos_pos_trivial) simp_all
    ultimately show ?thesis by simp
  qed
  with s show ?thesis by (simp add: py_range_def)
qed

lemma for_loop_map: "for_loop (map g xs) body s = for_loop xs (\<lambda>i. body (g i)) s"
  by (induction xs arbitrary: s) (simp_all add: bind_err_def split: sum.splits)

lemma for_loop_total:
  assumes "\<And>i s. i \<in> set xs \<Longrightarrow> \<exists>s'. body i s = Inr s'"
  shows "\<exists>s'. for_loop xs body s = Inr s'"
  using assms
proof (induction xs arbitrary: s)
  case Nil
  show ?case by simp
next
  case (Cons i xs)
  from Cons.prems [of i s] obtain s1 where s1: "body i s = Inr s1" by auto
  from Cons.IH [of s1] Cons.prems obtain s2 where "for_loop xs body s1 = Inr s2" by auto
  with s1 show ?case by simp
qed

section \<open>Counting cells\<close>

lemma card_grid:
  "sum_list (map (\<lambda>y. length (filter (P y) [0..<W])) [0..<H])
   = card {(y, x). y < H \<and> x < W \<and> P y x}"
proof -
  have row: "length (filter (P y) [0..<W]) = card {x. x < W \<and> P y x}" for y
    using length_filter_conv_card [of "P y" "[0..<W]"]
    by (simp cong: conj_cong)
  have "{(y, x). y < H \<and> x < W \<and> P y x} = (SIGMA y:{0..<H}. {x. x < W \<and> P y x})"
    by auto
  moreover have "card (SIGMA y:{0..<H}. {x. x < W \<and> P y x})
                   = (\<Sum>y\<in>{0..<H}. card {x. x < W \<and> P y x})"
    by (rule card_SigmaI) simp_all
  ultimately have "card {(y, x). y < H \<and> x < W \<and> P y x}
                     = (\<Sum>y\<in>{0..<H}. card {x. x < W \<and> P y x})"
    by simp
  also have "\<dots> = sum_list (map (\<lambda>y. card {x. x < W \<and> P y x}) [0..<H])"
    by (simp add: interv_sum_list_conv_sum_set_nat)
  finally show ?thesis by (simp add: row)
qed

lemma length_cells_with_state:
  "length (cells_with_state fm t v)
   = card {(y, x). y < dim_h fm \<and> x < dim_w fm \<and> cells fm ! t ! y ! x = v}"
  unfolding cells_with_state_def card_grid [symmetric]
  by (simp add: length_concat comp_def)

lemma cells_with_state_in_grid:
  assumes "c \<in> set (cells_with_state fm t v)"
  shows "\<exists>x y. c = (int x, int y) \<and> x < dim_w fm \<and> y < dim_h fm"
  using assms by (auto simp: cells_with_state_def)

section \<open>Frame sampling: what one frame holds\<close>

lemma fold_classify_row:
  "fold (\<lambda>x acc. if row x = 1 then (fst acc @ [p x], snd acc)
                    else if row x = (2::int) then (fst acc, snd acc @ [p x]) else acc) xs acc
   = (fst acc @ map p (filter (\<lambda>x. row x = 1) xs), snd acc @ map p (filter (\<lambda>x. row x = 2) xs))"
  by (induction xs arbitrary: acc) simp_all

lemma fold_collect_rows:
  "fold (\<lambda>y acc. (fst acc @ A y, snd acc @ B y)) ys acc
   = (fst acc @ concat (map A ys), snd acc @ concat (map B ys))"
  by (induction ys arbitrary: acc) simp_all

lemma scan_row:
  assumes gw: "grid_width self = int (dim_w fm)" and y: "y < dim_h fm"
    and p: "\<And>x. x < dim_w fm \<Longrightarrow> anim_pixel_to_latlon self (int x) (int y) = Inr (p x)"
  shows "for_loop (py_range1 (grid_width self)) (\<lambda>x. classify_cell self fm frame (int y) x) acc
         = Inr (fst acc @ map p (filter (\<lambda>x. frame ! y ! x = 1) [0..<dim_w fm]),
                snd acc @ map p (filter (\<lambda>x. frame ! y ! x = 2) [0..<dim_w fm]))"
proof -
  have body: "classify_cell self fm frame (int y) (int x) a
        = Inr (if frame ! y ! x = 1 then (fst a @ [p x], snd a)
               else if frame ! y ! x = 2 then (fst a, snd a @ [p x]) else a)"
    if "x \<in> set [0..<dim_w fm]" for x a
    using that y p by (simp add: classify_cell_def index2_nat)
  have xs: "py_range1 (grid_width self) = map int [0..<dim_w fm]"
    by (simp add: py_range1_def gw)
  show ?thesis
    unfolding xs for_loop_map
    by (simp only: for_loop_pure [OF body] fold_classify_row)
qed

lemma scan_frame_cells:
  assumes gh: "grid_height self = int (dim_h fm)" and gw: "grid_width self = int (dim_w fm)"
    and p: "\<And>x y. x < dim_w fm \<Longrightarrow> y < dim_h fm \<Longrightarrow>
              anim_pixel_to_latlon self (int x) (int y) = Inr (p x y)"
  shows "scan_frame self fm frame
         = Inr (concat (map (\<lambda>y. map (\<lambda>x. p x y) (filter (\<lambda>x. frame ! y ! x = 1) [0..<dim_w fm]))
                         [0..<dim_h fm]),
                concat (map (\<lambda>y. map (\<lambda>x. p x y) (filter (\<lambda>x. frame ! y ! x = 2) [0..<dim_w fm]))
                         [0..<dim_h fm]))"
proof -
  have body: "for_loop (py_range1 (grid_width self))
                (\<lambda>x. classify_cell self fm frame (int y) x) a
        = Inr (fst a @ map (\<lambda>x. p x y) (filter (\<lambda>x. frame ! y ! x = 1) [0..<dim_w fm]),
               snd a @ map (\<lambda>x. p x y) (filter (\<lambda>x. frame ! y ! x = 2) [0..<dim_w fm]))"
    if "y \<in> set [0..<dim_h fm]" for y a
    using that by (intro scan_row [OF gw]) (simp_all add: p)
  have ys: "py_range1 (grid_height self) = map int [0..<dim_h fm]"
    by (simp add: py_range1_def gh)
  show ?thesis
    unfolding scan_frame_def ys for_loop_map
    by (simp only: for_loop_pure [OF body] fold_collect_rows) simp
qed

lemma frame_at_nat: "t < dim_t fm \<Longrightarrow> frame_at fm (int t) = Inr (cells fm ! t)"
  by (simp add: frame_at_def np_index_nat)

lemma sample_frames_result:
  assumes gh: "grid_height self = int (dim_h fm)" and gw: "grid_width self = int (dim_w fm)"
    and p: "\<And>x y. x < dim_w fm \<Longrightarrow> y < dim_h fm \<Longrightarrow>
              anim_pixel_to_latlon self (int x) (int y) = Inr (p x y)"
    and s: "0 < s"
  shows "sample_frames self fm s
         = Inr (map (\<lambda>t. \<lparr>time = t,
                      burning = map (\<lambda>(x, y). p (nat x) (nat y)) (cells_with_state fm (nat t) 1),
                      burned_count = int (length (cells_with_state fm (nat t) 2)),
                      burning_count = int (length (cells_with_state fm (nat t) 1))\<rparr>)
                  (filter (\<lambda>t. t mod s = 0) (map int [0..<dim_t fm])))"
proof -
  let ?ts = "filter (\<lambda>t. t mod s = 0) (map int [0..<dim_t fm])"
  let ?g = "\<lambda>t. \<lparr>time = t,
                      burning = map (\<lambda>(x, y). p (nat x) (nat y)) (cells_with_state fm (nat t) 1),
                      burned_count = int (length (cells_with_state fm (nat t) 2)),
                      burning_count = int (length (cells_with_state fm (nat t) 1))\<rparr>"
  have pts: "map (\<lambda>(x, y). p (nat x) (nat y)) (cells_with_state fm j v)
        = concat (map (\<lambda>y. map (\<lambda>x. p x y) (filter (\<lambda>x. cells fm ! j ! y ! x = v) [0..<dim_w fm]))
                    [0..<dim_h fm])" for j v
    by (simp add: cells_with_state_def map_concat comp_def)
  have len: "length (cells_with_state fm j v)
        = length (concat (map (\<lambda>y. map (\<lambda>x. p x y)
                                 (filter (\<lambda>x. cells fm ! j ! y ! x = v) [0..<dim_w fm]))
                    [0..<dim_h fm]))" for j v
    unfolding pts [symmetric] by simp
  have body: "bind_err (frame_at fm t) (\<lambda>frame.
                bind_err (scan_frame self fm frame) (\<lambda>(burning_pixels, burned_pixels).
                  Inr (acc @
                        [\<lparr>time = t, burning = burning_pixels,
                          burned_count = int (length burned_pixels),
                          burning_count = int (length burning_pixels)\<rparr>])))
              = Inr (acc @ [?g t])"
    if "t \<in> set ?ts" for t acc
  proof -
    from that obtain j where j: "j < dim_t fm" and t: "t = int j" by auto
    have sf: "scan_frame self fm (cells fm ! j)
         = Inr (concat (map (\<lambda>y. map (\<lambda>x. p x y)
                              (filter (\<lambda>x. cells fm ! j ! y ! x = 1) [0..<dim_w fm]))
                         [0..<dim_h fm]),
                concat (map (\<lambda>y. map (\<lambda>x. p x y)
                              (filter (\<lambda>x. cells fm ! j ! y ! x = 2) [0..<dim_w fm]))
                         [0..<dim_h fm]))"
      by (rule scan_frame_cells [OF gh gw p])
    show ?thesis
      unfolding t frame_at_nat [OF j] bind_err_Inr sf
      by (simp add: pts len)
  qed
  show ?thesis
    unfolding sample_frames_def Let_def py_range_positive [OF s] bind_err_Inr
    using for_loop_collect [of ?ts _ ?g "[]", OF body] by simp
qed

lemma mark_newly_burning_bc_same_shape:
  assumes fl: "length frame = h" and fr: "\<And>y. y < h \<Longrightarrow> length (frame ! y) = w"
    and bl: "length bt = h" and br: "\<And>y. y < h \<Longrightarrow> length (bt ! y) = w"
  shows "mark_newly_burning_bc t h w frame h w bt = Inr (mark_newly_burning t frame bt)"
proof -
  have "map (\<lambda>y. map (\<lambda>x.
                  if 1 \<le> frame ! (if h = 1 then 0 else y) ! (if w = 1 then 0 else x)
                     \<and> bt ! y ! x = - 1
                  then t else bt ! y ! x) [0..<w]) [0..<h] = mark_newly_burning t frame bt"
  proof (rule nth_equalityI)
    show "length (map (\<lambda>y. map (\<lambda>x.
                  if 1 \<le> frame ! (if h = 1 then 0 else y) ! (if w = 1 then 0 else x)
                     \<and> bt ! y ! x = - 1
                  then t else bt ! y ! x) [0..<w]) [0..<h]) = length (mark_newly_burning t frame bt)"
      using fl bl by (simp add: mark_newly_burning_length)
  next
    fix y assume "y < length (map (\<lambda>y. map (\<lambda>x.
                  if 1 \<le> frame ! (if h = 1 then 0 else y) ! (if w = 1 then 0 else x)
                     \<and> bt ! y ! x = - 1
                  then t else bt ! y ! x) [0..<w]) [0..<h])"
    then have y: "y < h" by simp
    have rl: "length (mark_newly_burning t frame bt ! y) = w"
      using mark_newly_burning_row [of frame bt y t] fl bl fr [OF y] br [OF y] y by simp
    show "map (\<lambda>y. map (\<lambda>x.
                  if 1 \<le> frame ! (if h = 1 then 0 else y) ! (if w = 1 then 0 else x)
                     \<and> bt ! y ! x = - 1
                  then t else bt ! y ! x) [0..<w]) [0..<h] ! y = mark_newly_burning t frame bt ! y"
    proof (rule nth_equalityI)
      show "length (map (\<lambda>y. map (\<lambda>x.
                  if 1 \<le> frame ! (if h = 1 then 0 else y) ! (if w = 1 then 0 else x)
                     \<and> bt ! y ! x = - 1
                  then t else bt ! y ! x) [0..<w]) [0..<h] ! y)
            = length (mark_newly_burning t frame bt ! y)"
        using y rl by simp
    next
      fix x assume "x < length (map (\<lambda>y. map (\<lambda>x.
                  if 1 \<le> frame ! (if h = 1 then 0 else y) ! (if w = 1 then 0 else x)
                     \<and> bt ! y ! x = - 1
                  then t else bt ! y ! x) [0..<w]) [0..<h] ! y)"
      with y have x: "x < w" by simp
      have idx: "frame ! (if h = 1 then 0 else y) ! (if w = 1 then 0 else x) = frame ! y ! x"
        using y x by (cases "h = 1"; cases "w = 1") auto
      have "mark_newly_burning t frame bt ! y ! x
              = (if 1 \<le> frame ! y ! x \<and> bt ! y ! x = - 1 then t else bt ! y ! x)"
        using mark_newly_burning_cell [of frame bt y x t] fl bl fr [OF y] br [OF y] y x by simp
      then show "map (\<lambda>y. map (\<lambda>x.
                  if 1 \<le> frame ! (if h = 1 then 0 else y) ! (if w = 1 then 0 else x)
                     \<and> bt ! y ! x = - 1
                  then t else bt ! y ! x) [0..<w]) [0..<h] ! y ! x
            = mark_newly_burning t frame bt ! y ! x"
        using y x by (simp only: idx nth_map nth_upt length_upt length_map add_0 diff_zero)
    qed
  qed
  then show ?thesis by (simp add: mark_newly_burning_bc_def)
qed

lemma anim_burn_time_matrix_eq:
  assumes wf: "well_shaped fm"
    and gh: "grid_height self = int (dim_h fm)" and gw: "grid_width self = int (dim_w fm)"
  shows "anim_burn_time_matrix self fm = Inr (compute_burn_time_matrix fm)"
proof -
  let ?body = "\<lambda>t bt. mark_newly_burning_bc (int t) (dim_h fm) (dim_w fm) (cells fm ! t)
                    (dim_h fm) (dim_w fm) bt"
  let ?step = "\<lambda>t bt. mark_newly_burning (int t) (cells fm ! t) bt"
  let ?bt0 = "np_full (dim_h fm) (dim_w fm) (- 1)"
  have loop: "n \<le> dim_t fm \<Longrightarrow> for_loop [0..<n] ?body ?bt0 = Inr (fold ?step [0..<n] ?bt0)" for n
  proof (induction n)
    case 0
    show ?case by simp
  next
    case (Suc n)
    then have n: "n < dim_t fm" and IH: "for_loop [0..<n] ?body ?bt0 = Inr (fold ?step [0..<n] ?bt0)"
      by simp_all
    from n have nle: "n \<le> dim_t fm" by simp
    note sh = burn_time_steps [OF wf nle]
    have "?body n (fold ?step [0..<n] ?bt0) = Inr (?step n (fold ?step [0..<n] ?bt0))"
    proof (rule mark_newly_burning_bc_same_shape)
      show "length (cells fm ! n) = dim_h fm" by (rule well_shaped_frame(1) [OF wf n])
      show "\<And>y. y < dim_h fm \<Longrightarrow> length (cells fm ! n ! y) = dim_w fm"
        by (rule well_shaped_frame(2) [OF wf n])
      show "length (fold ?step [0..<n] ?bt0) = dim_h fm" using sh by blast
      show "\<And>y. y < dim_h fm \<Longrightarrow> length (fold ?step [0..<n] ?bt0 ! y) = dim_w fm"
        using sh by blast
    qed
    then show ?case
      by (simp add: for_loop_append IH)
  qed
  show ?thesis
    unfolding anim_burn_time_matrix_def np_full_checked_def gh gw
    using loop [OF order_refl]
    by (simp add: compute_burn_time_matrix_def burn_time_loop_def)
qed

lemma burned_pixels_with_time_ok:
  assumes gh: "grid_height self = int h" and gw: "grid_width self = int w"
    and p: "\<And>x y. x < w \<Longrightarrow> y < h \<Longrightarrow> anim_pixel_to_latlon self (int x) (int y) = Inr (p x y)"
  shows "\<exists>burned. burned_pixels_with_time self m = Inr burned"
proof -
  have ys: "py_range1 (grid_height self) = map int [0..<h]"
    by (simp add: py_range1_def gh)
  have xs: "py_range1 (grid_width self) = map int [0..<w]"
    by (simp add: py_range1_def gw)
  have cell: "\<exists>acc'. bind_err (index2 (nat (grid_height self)) (nat (grid_width self)) m (int y) (int x))
                 (\<lambda>bt. if 0 \<le> bt
                       then bind_err (anim_pixel_to_latlon self (int x) (int y)) (\<lambda>(lat, lon).
                              Inr (acc @ [(lat, lon, bt)]))
                       else Inr acc) = Inr acc'"
    if "x \<in> set [0..<w]" "y \<in> set [0..<h]" for x y acc
    using that by (cases "p x y") (simp add: gh gw index2_nat p)
  have row: "\<exists>acc'. for_loop [0..<w]
                (\<lambda>x acc. bind_err (index2 (nat (grid_height self)) (nat (grid_width self)) m (int y) (int x))
                 (\<lambda>bt. if 0 \<le> bt
                       then bind_err (anim_pixel_to_latlon self (int x) (int y)) (\<lambda>(lat, lon).
                              Inr (acc @ [(lat, lon, bt)]))
                       else Inr acc)) acc = Inr acc'"
    if "y \<in> set [0..<h]" for y acc
    by (rule for_loop_total) (rule cell [OF _ that])
  show ?thesis
    unfolding burned_pixels_with_time_def ys xs for_loop_map
    by (rule for_loop_total) (rule row)
qed

lemma prepare_animation_data_frames:
  assumes wf: "well_shaped fm"
    and gh: "grid_height self = int (dim_h fm)" and gw: "grid_width self = int (dim_w fm)"
    and pos: "0 < dim_h fm" "0 < dim_w fm"
    and fs: "sample_frames self fm s = Inr fs"
  shows "\<exists>d. prepare_animation_data self fm s = Inr d \<and> anim_frames d = fs"
proof -
  from gh gw pos have nz: "grid_width self \<noteq> 0" "grid_height self \<noteq> 0" by simp_all
  from burned_pixels_with_time_ok [OF gh gw anim_pixel_to_latlon_ok [OF nz]]
  obtain burned where b: "burned_pixels_with_time self (compute_burn_time_matrix fm) = Inr burned"
    by blast
  show ?thesis
    unfolding prepare_animation_data_def fs anim_burn_time_matrix_eq [OF wf gh gw] b bind_err_Inr
    using nz by simp
qed

lemma sample_frames_zero: "sample_frames self fm 0 = Inl ValueError"
  by (simp add: sample_frames_def py_range_zero)

lemma sample_frames_negative: "s < 0 \<Longrightarrow> sample_frames self fm s = Inr []"
  by (simp add: sample_frames_def py_range_negative)

lemma negative_stride_returns:
  assumes "well_shaped fm" "grid_height self = int (dim_h fm)" "grid_width self = int (dim_w fm)"
    "0 < dim_h fm" "0 < dim_w fm" "s < 0"
  shows "\<exists>d. prepare_animation_data self fm s = Inr d \<and> anim_frames d = []"
  using prepare_animation_data_frames [OF assms(1-5) sample_frames_negative [OF assms(6)]] .

lemma even_times_of_four: "filter (\<lambda>t. t mod 2 = 0) (map int [0..<4]) = [0, 2]"
  by code_simp

lemma four_frame_map_well_shaped: "well_shaped four_frame_map"
  by (simp add: well_shaped_def four_frame_map_def)

text \<open>
  Claim C4. For a stack of \<open>T\<close> frames on a non-empty grid that matches the configuration,
  and every stride \<open>s \<ge> 1\<close>, the sampler returns, and its frames are those of the times
  \<open>t < T\<close> that are multiples of \<open>s\<close>, in increasing order. In the frame of time \<open>t\<close>,
  \<open>burning\<close> holds the projected position (cell centre) of every cell whose state in frame
  \<open>t\<close> is 1, in row-major order, \<open>burning_count\<close> is the number of those cells, and
  \<open>burned_count\<close> is the number of cells whose state in frame \<open>t\<close> is 2, counted in that
  frame alone. With stride 2 and four frames the times are 0 and 2.
\<close>

theorem frame_sampler:
  assumes wf: "well_shaped fm"
    and gh: "grid_height self = int (dim_h fm)" and gw: "grid_width self = int (dim_w fm)"
    and pos: "0 < dim_h fm" "0 < dim_w fm"
    and s: "1 \<le> s"
  shows "\<exists>d. prepare_animation_data self fm s = Inr d
           \<and> map time (anim_frames d) = filter (\<lambda>t. t mod s = 0) (map int [0..<dim_t fm])
           \<and> (\<forall>f \<in> set (anim_frames d).
                 0 \<le> time f \<and> nat (time f) < dim_t fm
                 \<and> map Inr (burning f)
                     = map (\<lambda>(x, y). anim_pixel_to_latlon self x y)
                         (cells_with_state fm (nat (time f)) 1)
                 \<and> burning_count f
                     = int (card {(y, x). y < dim_h fm \<and> x < dim_w fm
                                    \<and> cells fm ! nat (time f) ! y ! x = 1})
                 \<and> burned_count f
                     = int (card {(y, x). y < dim_h fm \<and> x < dim_w fm
                                    \<and> cells fm ! nat (time f) ! y ! x = 2}))
           \<and> (s = 2 \<and> dim_t fm = 4 \<longrightarrow> map time (anim_frames d) = [0, 2])"
proof -
  from gh gw pos have nz: "grid_width self \<noteq> 0" "grid_height self \<noteq> 0" by simp_all
  define p where "p x y = (north_lat self - ((of_int (int y) + 0.5) / of_int (grid_height self)) * delta_lat self,
                west_lon self + ((of_int (int x) + 0.5) / of_int (grid_width self)) * delta_lon self)" for x y
  have p: "anim_pixel_to_latlon self (int x) (int y) = Inr (p x y)" for x y
    unfolding p_def by (rule anim_pixel_to_latlon_ok [OF nz])
  let ?ts = "filter (\<lambda>t. t mod s = 0) (map int [0..<dim_t fm])"
  let ?g = "\<lambda>t. \<lparr>time = t,
                      burning = map (\<lambda>(x, y). p (nat x) (nat y)) (cells_with_state fm (nat t) 1),
                      burned_count = int (length (cells_with_state fm (nat t) 2)),
                      burning_count = int (length (cells_with_state fm (nat t) 1))\<rparr>"
  from s have s0: "0 < s" by simp
  have fs: "sample_frames self fm s = Inr (map ?g ?ts)"
    by (rule sample_frames_result [OF gh gw p s0])
  from prepare_animation_data_frames [OF wf gh gw pos fs]
  obtain d where d: "prepare_animation_data self fm s = Inr d" and fr: "anim_frames d = map ?g ?ts"
    by blast
  have times: "map time (anim_frames d) = ?ts"
    unfolding fr by (simp add: comp_def)
  have each: "0 \<le> time f \<and> nat (time f) < dim_t fm
                 \<and> map Inr (burning f)
                     = map (\<lambda>(x, y). anim_pixel_to_latlon self x y)
                         (cells_with_state fm (nat (time f)) 1)
                 \<and> burning_count f
                     = int (card {(y, x). y < dim_h fm \<and> x < dim_w fm
                                    \<and> cells fm ! nat (time f) ! y ! x = 1})
                 \<and> burned_count f
                     = int (card {(y, x). y < dim_h fm \<and> x < dim_w fm
                                    \<and> cells fm ! nat (time f) ! y ! x = 2})"
    if "f \<in> set (anim_frames d)" for f
  proof -
    from that fr obtain t where t: "t \<in> set ?ts" and f: "f = ?g t" by auto
    from t obtain j where j: "j < dim_t fm" and tj: "t = int j" by auto
    have pts: "map Inr (map (\<lambda>(x, y). p (nat x) (nat y)) (cells_with_state fm j 1))
                 = map (\<lambda>(x, y). anim_pixel_to_latlon self x y) (cells_with_state fm j 1)"
    proof -
      have "Inr (case c of (x, y) \<Rightarrow> p (nat x) (nat y))
              = (case c of (x, y) \<Rightarrow> anim_pixel_to_latlon self x y)"
        if "c \<in> set (cells_with_state fm j 1)" for c
        using cells_with_state_in_grid [OF that] by (auto simp: p)
      then show ?thesis by (simp add: comp_def)
    qed
    have tm: "time f = int j" and bg: "burning f = map (\<lambda>(x, y). p (nat x) (nat y)) (cells_with_state fm j 1)"
      and c1: "burning_count f = int (length (cells_with_state fm j 1))"
      and c2: "burned_count f = int (length (cells_with_state fm j 2))"
      unfolding f tj by simp_all
    have nt: "nat (time f) = j" using tm by simp
    show ?thesis
      unfolding nt c1 c2 bg pts length_cells_with_state using j tm by simp
  qed
  have four: "s = 2 \<and> dim_t fm = 4 \<longrightarrow> map time (anim_frames d) = [0, 2]"
    unfolding times using even_times_of_four by auto
  have all: "\<forall>f \<in> set (anim_frames d).
                 0 \<le> time f \<and> nat (time f) < dim_t fm
                 \<and> map Inr (burning f)
                     = map (\<lambda>(x, y). anim_pixel_to_latlon self x y)
                         (cells_with_state fm (nat (time f)) 1)
                 \<and> burning_count f
                     = int (card {(y, x). y < dim_h fm \<and> x < dim_w fm
                                    \<and> cells fm ! nat (time f) ! y ! x = 1})
                 \<and> burned_count f
                     = int (card {(y, x). y < dim_h fm \<and> x < dim_w fm
                                    \<and> cells fm ! nat (time f) ! y ! x = 2})"
    by (intro ballI) (rule each)
  show ?thesis
    by (rule exI [of _ d]) (rule conjI [OF d conjI [OF times conjI [OF all four]]])
qed

theorem frame_sampler_witness:
  "well_shaped four_frame_map
   \<and> grid_height scenario_coords = int (dim_h four_frame_map)
   \<and> grid_width scenario_coords = int (dim_w four_frame_map)
   \<and> 0 < dim_h four_frame_map \<and> 0 < dim_w four_frame_map \<and> (1::int) \<le> 2
   \<and> dim_t four_frame_map = 4
   \<and> (\<exists>d. prepare_animation_data scenario_coords four_frame_map 2 = Inr d
          \<and> map time (anim_frames d) = [0, 2]
          \<and> (\<forall>f \<in> set (anim_frames d).
                burning_count f
                  = int (card {(y, x). y < dim_h four_frame_map \<and> x < dim_w four_frame_map
                                 \<and> cells four_frame_map ! nat (time f) ! y ! x = 1})))"
proof -
  have gh: "grid_height scenario_coords = int (dim_h four_frame_map)"
    and gw: "grid_width scenario_coords = int (dim_w four_frame_map)"
    and pos: "0 < dim_h four_frame_map" "0 < dim_w four_frame_map"
    and T: "dim_t four_frame_map = 4"
    by (simp_all add: scenario_coords_def four_frame_map_def)
  have s: "(1::int) \<le> 2" by simp
  from frame_sampler [OF four_frame_map_well_shaped gh gw pos s]
  have "\<exists>d. prepare_animation_data scenario_coords four_frame_map 2 = Inr d
          \<and> map time (anim_frames d) = [0, 2]
          \<and> (\<forall>f \<in> set (anim_frames d).
                burning_count f
                  = int (card {(y, x). y < dim_h four_frame_map \<and> x < dim_w four_frame_map
                                 \<and> cells four_frame_map ! nat (time f) ! y ! x = 1}))"
  proof (elim exE conjE)
    fix d
    assume d: "prepare_animation_data scenario_coords four_frame_map 2 = Inr d"
      and four: "(2::int) = 2 \<and> dim_t four_frame_map = 4 \<longrightarrow> map time (anim_frames d) = [0, 2]"
      and each: "\<forall>f \<in> set (anim_frames d).
                 0 \<le> time f \<and> nat (time f) < dim_t four_frame_map
                 \<and> map Inr (burning f)
                     = map (\<lambda>(x, y). anim_pixel_to_latlon scenario_coords x y)
                         (cells_with_state four_frame_map (nat (time f)) 1)
                 \<and> burning_count f
                     = int (card {(y, x). y < dim_h four_frame_map \<and> x < dim_w four_frame_map
                                    \<and> cells four_frame_map ! nat (time f) ! y ! x = 1})
                 \<and> burned_count f
                     = int (card {(y, x). y < dim_h four_frame_map \<and> x < dim_w four_frame_map
                                    \<and> cells four_frame_map ! nat (time f) ! y ! x = 2})"
    from four T have times: "map time (anim_frames d) = [0, 2]" by simp
    have counts: "\<forall>f \<in> set (anim_frames d).
                burning_count f
                  = int (card {(y, x). y < dim_h four_frame_map \<and> x < dim_w four_frame_map
                                 \<and> cells four_frame_map ! nat (time f) ! y ! x = 1})"
    proof
      fix f assume "f \<in> set (anim_frames d)"
      with each show "burning_count f
                  = int (card {(y, x). y < dim_h four_frame_map \<and> x < dim_w four_frame_map
                                 \<and> cells four_frame_map ! nat (time f) ! y ! x = 1})"
        by (simp only: simp_thms)
    qed
    show ?thesis
      by (rule exI [of _ d]) (rule conjI [OF d conjI [OF times counts]])
  qed
  with four_frame_map_well_shaped gh gw pos s T show ?thesis by (intro conjI)
qed

section \<open>Frame sampling: a stride below one\<close>

text \<open>
  Claim C9, as the code has it. With stride 0 the sampler fails (\<^verbatim>\<open>range\<close> raises
  \<^verbatim>\<open>ValueError\<close>); with a negative stride it does not fail: on a stack that matches a
  non-empty grid it returns, with an empty list of frames.
\<close>

theorem sampler_stride_below_one:
  "prepare_animation_data self fm 0 = Inl ValueError
   \<and> (s < 0 \<and> well_shaped fm
        \<and> grid_height self = int (dim_h fm) \<and> grid_width self = int (dim_w fm)
        \<and> 0 < dim_h fm \<and> 0 < dim_w fm \<longrightarrow>
        (\<exists>d. prepare_animation_data self fm s = Inr d \<and> anim_frames d = []))"
proof (intro conjI impI)
  show "prepare_animation_data self fm 0 = Inl ValueError"
    by (simp add: prepare_animation_data_def sample_frames_zero)
next
  assume a: "s < 0 \<and> well_shaped fm
        \<and> grid_height self = int (dim_h fm) \<and> grid_width self = int (dim_w fm)
        \<and> 0 < dim_h fm \<and> 0 < dim_w fm"
  then show "\<exists>d. prepare_animation_data self fm s = Inr d \<and> anim_frames d = []"
    by (intro negative_stride_returns) simp_all
qed

theorem sampler_stride_below_one_witness:
  "(- 1 :: int) < 0 \<and> well_shaped scenario_map
   \<and> grid_height scenario_coords = int (dim_h scenario_map)
   \<and> grid_width scenario_coords = int (dim_w scenario_map)
   \<and> 0 < dim_h scenario_map \<and> 0 < dim_w scenario_map
   \<and> prepare_animation_data scenario_coords scenario_map 0 = Inl ValueError
   \<and> (\<exists>d. prepare_animation_data scenario_coords scenario_map (- 1) = Inr d \<and> anim_frames d = [])"
proof -
  have h: "(- 1 :: int) < 0" "grid_height scenario_coords = int (dim_h scenario_map)"
    "grid_width scenario_coords = int (dim_w scenario_map)"
    "0 < dim_h scenario_map" "0 < dim_w scenario_map"
    by (simp_all add: scenario_coords_def scenario_map_def)
  from sampler_stride_below_one [of scenario_coords scenario_map "- 1"]
    h scenario_map_well_shaped
  show ?thesis by blast
qed

text \<open>
  Claim C9 as stated says that every stride below one is rejected. With stride \<open>-1\<close> on the
  scenario of the specification the sampler returns a result, whose frame list is empty.
\<close>

theorem negative_stride_counterexample:
  "\<not> isl (prepare_animation_data scenario_coords scenario_map (- 1))
   \<and> anim_frames (projr (prepare_animation_data scenario_coords scenario_map (- 1))) = []"
proof -
  have "\<exists>d. prepare_animation_data scenario_coords scenario_map (- 1) = Inr d \<and> anim_frames d = []"
    by (rule negative_stride_returns [OF scenario_map_well_shaped])
      (simp_all add: scenario_coords_def scenario_map_def)
  then obtain d where "prepare_animation_data scenario_coords scenario_map (- 1) = Inr d"
    and "anim_frames d = []" by blast
  then show ?thesis by simp
qed

section \<open>Summary statistics: the last frame\<close>

lemma count_eq_card:
  assumes fl: "length frame = H" and fr: "\<And>y. y < H \<Longrightarrow> length (frame ! y) = W"
  shows "count_eq frame v = int (card {(y, x). y < H \<and> x < W \<and> frame ! y ! x = v})"
proof -
  have row: "length (filter (\<lambda>s. s = v) (frame ! y)) = length (filter (\<lambda>x. frame ! y ! x = v) [0..<W])"
    if "y < H" for y
  proof -
    have "frame ! y = map (\<lambda>x. frame ! y ! x) [0..<W]"
      using fr [OF that] by (metis map_nth)
    then have "filter (\<lambda>s. s = v) (frame ! y)
                 = filter (\<lambda>s. s = v) (map (\<lambda>x. frame ! y ! x) [0..<W])" by simp
    also have "length \<dots> = length (filter (\<lambda>x. frame ! y ! x = v) [0..<W])"
      by (simp add: filter_map comp_def)
    finally show ?thesis .
  qed
  have "frame = map (\<lambda>y. frame ! y) [0..<H]"
    using fl by (metis map_nth)
  then have "count_eq frame v
      = sum_list (map (\<lambda>row. int (length (filter (\<lambda>s. s = v) row))) (map (\<lambda>y. frame ! y) [0..<H]))"
    by (simp add: count_eq_def)
  also have "\<dots> = sum_list (map (\<lambda>y. int (length (filter (\<lambda>s. s = v) (frame ! y)))) [0..<H])"
    by (simp add: comp_def)
  also have "\<dots> = sum_list (map (\<lambda>y. int (length (filter (\<lambda>x. frame ! y ! x = v) [0..<W]))) [0..<H])"
    by (rule arg_cong [where f = sum_list]) (simp add: row)
  also have "\<dots> = int (sum_list (map (\<lambda>y. length (filter (\<lambda>x. frame ! y ! x = v) [0..<W])) [0..<H]))"
    by (induction H) simp_all
  finally show ?thesis by (simp only: card_grid)
qed

lemma matrix_max_some:
  assumes "0 < length m" "0 < length (m ! 0)"
  shows "\<exists>v. matrix_max m = Inr v"
proof -
  from assms obtain r rs where m: "m = r # rs" by (cases m) auto
  with assms obtain a as where r: "r = a # as" by (cases r) auto
  show ?thesis by (simp add: matrix_max_def m r)
qed

lemma frame_at_last: "0 < dim_t fm \<Longrightarrow> frame_at fm (- 1) = Inr (cells fm ! (dim_t fm - 1))"
  by (simp add: frame_at_def np_index_def nat_diff_distrib' int_ops)

lemma ignited_of_last_frame:
  assumes wf: "well_shaped fm" and T: "0 < dim_t fm"
    and y: "y < dim_h fm" and x: "x < dim_w fm"
    and b: "1 \<le> cells fm ! (dim_t fm - 1) ! y ! x"
  shows "0 \<le> compute_burn_time_matrix fm ! y ! x"
proof -
  let ?s = "\<lambda>t. cells fm ! t ! y ! x"
  from T have "dim_t fm - 1 < dim_t fm" by simp
  moreover from b have "\<not> ?s (dim_t fm - 1) < 1" by simp
  ultimately have "\<not> (\<forall>t<dim_t fm. ?s t < 1)" by blast
  then have "cell_fold ?s (dim_t fm) \<noteq> - 1" unfolding cell_fold_unburned .
  from cell_fold_first [OF this] have "0 \<le> cell_fold ?s (dim_t fm)" by blast
  then show ?thesis
    by (simp only: compute_burn_time_matrix_cell [OF wf y x])
qed

lemma finite_ignited:
  "finite {(y, x). y < dim_h fm \<and> x < dim_w fm \<and> 0 \<le> compute_burn_time_matrix fm ! y ! x}"
proof -
  have "{(y, x). y < dim_h fm \<and> x < dim_w fm \<and> 0 \<le> compute_burn_time_matrix fm ! y ! x}
          \<subseteq> {..<dim_h fm} \<times> {..<dim_w fm}" by auto
  then show ?thesis by (rule finite_subset) simp
qed

lemma burned_subset_ignited:
  assumes wf: "well_shaped fm" and T: "0 < dim_t fm"
  shows "{(y, x). y < dim_h fm \<and> x < dim_w fm \<and> cells fm ! (dim_t fm - 1) ! y ! x = 2}
          \<subseteq> {(y, x). y < dim_h fm \<and> x < dim_w fm \<and> 0 \<le> compute_burn_time_matrix fm ! y ! x}"
proof (rule subsetI)
  fix c assume "c \<in> {(y, x). y < dim_h fm \<and> x < dim_w fm \<and> cells fm ! (dim_t fm - 1) ! y ! x = 2}"
  then obtain y x where c: "c = (y, x)" and y: "y < dim_h fm" and x: "x < dim_w fm"
    and b: "cells fm ! (dim_t fm - 1) ! y ! x = 2" by auto
  from b have "1 \<le> cells fm ! (dim_t fm - 1) ! y ! x" by simp
  from ignited_of_last_frame [OF wf T y x this] c y x
  show "c \<in> {(y, x). y < dim_h fm \<and> x < dim_w fm \<and> 0 \<le> compute_burn_time_matrix fm ! y ! x}"
    by simp
qed

lemma burned_cells_ignited:
  assumes wf: "well_shaped fm" and T: "0 < dim_t fm"
  shows "card {(y, x). y < dim_h fm \<and> x < dim_w fm \<and> cells fm ! (dim_t fm - 1) ! y ! x = 2}
         \<le> card {(y, x). y < dim_h fm \<and> x < dim_w fm \<and> 0 \<le> compute_burn_time_matrix fm ! y ! x}"
  by (rule card_mono [OF finite_ignited burned_subset_ignited [OF wf T]])

lemma still_burning_not_counted:
  assumes wf: "well_shaped fm" and T: "0 < dim_t fm"
    and y: "y < dim_h fm" and x: "x < dim_w fm"
    and b: "cells fm ! (dim_t fm - 1) ! y ! x = 1"
  shows "card {(y, x). y < dim_h fm \<and> x < dim_w fm \<and> cells fm ! (dim_t fm - 1) ! y ! x = 2}
         < card {(y, x). y < dim_h fm \<and> x < dim_w fm \<and> 0 \<le> compute_burn_time_matrix fm ! y ! x}"
proof (rule psubset_card_mono [OF finite_ignited])
  from b have "1 \<le> cells fm ! (dim_t fm - 1) ! y ! x" by simp
  from ignited_of_last_frame [OF wf T y x this] y x
  have "(y, x) \<in> {(y, x). y < dim_h fm \<and> x < dim_w fm \<and> 0 \<le> compute_burn_time_matrix fm ! y ! x}"
    by simp
  moreover from b
  have "(y, x) \<notin> {(y, x). y < dim_h fm \<and> x < dim_w fm \<and> cells fm ! (dim_t fm - 1) ! y ! x = 2}"
    by simp
  ultimately
  show "{(y, x). y < dim_h fm \<and> x < dim_w fm \<and> cells fm ! (dim_t fm - 1) ! y ! x = 2}
          \<subset> {(y, x). y < dim_h fm \<and> x < dim_w fm \<and> 0 \<le> compute_burn_time_matrix fm ! y ! x}"
    using burned_subset_ignited [OF wf T] by blast
qed

lemma get_statistics_result:
  assumes wf: "well_shaped fm" and T: "0 < dim_t fm" and pos: "0 < dim_h fm" "0 < dim_w fm"
  shows "\<exists>m. get_statistics self fm =
           Inr \<lparr>stat_total_pixels = int (dim_h fm * dim_w fm),
                stat_burned_pixels = count_eq (cells fm ! (dim_t fm - 1)) 2,
                stat_burned_percentage =
                  of_int (count_eq (cells fm ! (dim_t fm - 1)) 2)
                    / of_int (int (dim_h fm * dim_w fm)) * 100,
                stat_area_total_ha =
                  of_int (int (dim_h fm * dim_w fm)) * ((pixel_scale_m self)\<^sup>2 / 10000),
                stat_area_burned_ha =
                  of_int (count_eq (cells fm ! (dim_t fm - 1)) 2)
                    * ((pixel_scale_m self)\<^sup>2 / 10000),
                stat_simulation_frames = int (dim_t fm),
                stat_max_burn_time = m,
                stat_bounds = (north_lat self, south_lat self, east_lon self, west_lon self)\<rparr>"
proof -
  have "0 < length (compute_burn_time_matrix fm)"
    using compute_burn_time_matrix_shape(1) [OF wf] pos by simp
  moreover have "0 < length (compute_burn_time_matrix fm ! 0)"
    using compute_burn_time_matrix_shape(2) [OF wf pos(1)] pos by simp
  ultimately obtain m where m: "matrix_max (compute_burn_time_matrix fm) = Inr m"
    using matrix_max_some by blast
  show ?thesis
    unfolding get_statistics_def frame_at_last [OF T] bind_err_Inr Let_def m
    by (rule exI [of _ m]) (rule refl)
qed

lemma scenario_last_frame_counts:
  "card {(y, x). y < dim_h scenario_map \<and> x < dim_w scenario_map
           \<and> cells scenario_map ! (dim_t scenario_map - 1) ! y ! x = 2} = 1"
  "card {(y, x). y < dim_h scenario_map \<and> x < dim_w scenario_map
           \<and> 0 \<le> compute_burn_time_matrix scenario_map ! y ! x} = 2"
  unfolding card_grid [symmetric] scenario_burn_time
  by (simp_all add: scenario_map_def upt_rec)

text \<open>
  Claim C10. For a stack with at least one frame on a non-empty grid, the statistics are taken
  from the last frame alone: \<open>burned_pixels\<close> is the number of cells whose state there is 2,
  \<open>total_pixels\<close> is \<open>grid_height * grid_width\<close>, \<open>burned_percentage\<close> is
  \<open>burned_pixels / total_pixels * 100\<close> and \<open>area_burned_ha\<close> is \<open>burned_pixels\<close> times the
  area of a cell in hectares. \<open>burned_pixels\<close> is at most the number of cells that ever ignited
  (burn time \<open>\<ge> 0\<close>), and strictly smaller as soon as one cell is still burning (state 1) in
  the last frame.
\<close>

theorem statistics_from_last_frame:
  assumes wf: "well_shaped fm" and T: "0 < dim_t fm" and pos: "0 < dim_h fm" "0 < dim_w fm"
  shows "\<exists>st. get_statistics self fm = Inr st
           \<and> stat_total_pixels st = int (dim_h fm * dim_w fm)
           \<and> stat_burned_pixels st
               = int (card {(y, x). y < dim_h fm \<and> x < dim_w fm
                              \<and> cells fm ! (dim_t fm - 1) ! y ! x = 2})
           \<and> stat_burned_percentage st
               = of_int (stat_burned_pixels st) / of_int (stat_total_pixels st) * 100
           \<and> stat_area_burned_ha st
               = of_int (stat_burned_pixels st) * ((pixel_scale_m self)\<^sup>2 / 10000)
           \<and> stat_burned_pixels st
               \<le> int (card {(y, x). y < dim_h fm \<and> x < dim_w fm
                              \<and> 0 \<le> compute_burn_time_matrix fm ! y ! x})
           \<and> ((\<exists>y<dim_h fm. \<exists>x<dim_w fm. cells fm ! (dim_t fm - 1) ! y ! x = 1) \<longrightarrow>
                stat_burned_pixels st
                  < int (card {(y, x). y < dim_h fm \<and> x < dim_w fm
                                 \<and> 0 \<le> compute_burn_time_matrix fm ! y ! x}))"
proof -
  from get_statistics_result [OF wf T pos] obtain st m where
    st: "get_statistics self fm = Inr st"
    and v: "st = \<lparr>stat_total_pixels = int (dim_h fm * dim_w fm),
                stat_burned_pixels = count_eq (cells fm ! (dim_t fm - 1)) 2,
                stat_burned_percentage =
                  of_int (count_eq (cells fm ! (dim_t fm - 1)) 2)
                    / of_int (int (dim_h fm * dim_w fm)) * 100,
                stat_area_total_ha =
                  of_int (int (dim_h fm * dim_w fm)) * ((pixel_scale_m self)\<^sup>2 / 10000),
                stat_area_burned_ha =
                  of_int (count_eq (cells fm ! (dim_t fm - 1)) 2)
                    * ((pixel_scale_m self)\<^sup>2 / 10000),
                stat_simulation_frames = int (dim_t fm),
                stat_max_burn_time = m,
                stat_bounds = (north_lat self, south_lat self, east_lon self, west_lon self)\<rparr>"
    by blast
  from T have last: "dim_t fm - 1 < dim_t fm" by simp
  have cnt: "count_eq (cells fm ! (dim_t fm - 1)) 2
        = int (card {(y, x). y < dim_h fm \<and> x < dim_w fm \<and> cells fm ! (dim_t fm - 1) ! y ! x = 2})"
    by (rule count_eq_card [OF well_shaped_frame(1) [OF wf last] well_shaped_frame(2) [OF wf last]])
  have a: "stat_total_pixels st = int (dim_h fm * dim_w fm)" by (simp add: v)
  have b: "stat_burned_pixels st
               = int (card {(y, x). y < dim_h fm \<and> x < dim_w fm
                              \<and> cells fm ! (dim_t fm - 1) ! y ! x = 2})"
    unfolding cnt [symmetric] by (simp add: v)
  have c: "stat_burned_percentage st
               = of_int (stat_burned_pixels st) / of_int (stat_total_pixels st) * 100"
    by (simp add: v)
  have d: "stat_area_burned_ha st
               = of_int (stat_burned_pixels st) * ((pixel_scale_m self)\<^sup>2 / 10000)"
    by (simp add: v)
  have e: "stat_burned_pixels st
               \<le> int (card {(y, x). y < dim_h fm \<and> x < dim_w fm
                              \<and> 0 \<le> compute_burn_time_matrix fm ! y ! x})"
    unfolding b using burned_cells_ignited [OF wf T] by simp
  have f: "(\<exists>y<dim_h fm. \<exists>x<dim_w fm. cells fm ! (dim_t fm - 1) ! y ! x = 1) \<longrightarrow>
                stat_burned_pixels st
                  < int (card {(y, x). y < dim_h fm \<and> x < dim_w fm
                                 \<and> 0 \<le> compute_burn_time_matrix fm ! y ! x})"
  proof (intro impI, elim exE conjE)
    fix y x assume "y < dim_h fm" "x < dim_w fm" "cells fm ! (dim_t fm - 1) ! y ! x = 1"
    from still_burning_not_counted [OF wf T this]
    show "stat_burned_pixels st
                  < int (card {(y, x). y < dim_h fm \<and> x < dim_w fm
                                 \<and> 0 \<le> compute_burn_time_matrix fm ! y ! x})"
      unfolding b by simp
  qed
  show ?thesis
    by (rule exI [of _ st])
      (rule conjI [OF st conjI [OF a conjI [OF b conjI [OF c conjI [OF d conjI [OF e f]]]]]])
qed

theorem statistics_from_last_frame_witness:
  "well_shaped scenario_map \<and> 0 < dim_t scenario_map
   \<and> 0 < dim_h scenario_map \<and> 0 < dim_w scenario_map
   \<and> (\<exists>y<dim_h scenario_map. \<exists>x<dim_w scenario_map.
          cells scenario_map ! (dim_t scenario_map - 1) ! y ! x = 1)
   \<and> (\<exists>st. get_statistics scenario_coords scenario_map = Inr st
          \<and> stat_total_pixels st = 4
          \<and> stat_burned_pixels st = 1
          \<and> stat_burned_percentage st = 25
          \<and> stat_burned_pixels st
               < int (card {(y, x). y < dim_h scenario_map \<and> x < dim_w scenario_map
                              \<and> 0 \<le> compute_burn_time_matrix scenario_map ! y ! x}))"
proof -
  have h: "0 < dim_t scenario_map" "0 < dim_h scenario_map" "0 < dim_w scenario_map"
    by (simp_all add: scenario_map_def)
  have tot: "int (dim_h scenario_map * dim_w scenario_map) = 4"
    by (simp add: scenario_map_def)
  have "0 < dim_h scenario_map \<and> (\<exists>x<dim_w scenario_map.
          cells scenario_map ! (dim_t scenario_map - 1) ! 0 ! x = 1)"
    by (rule conjI [OF h(2)], rule exI [of _ 1]) (simp add: scenario_map_def)
  then have burning: "\<exists>y<dim_h scenario_map. \<exists>x<dim_w scenario_map.
          cells scenario_map ! (dim_t scenario_map - 1) ! y ! x = 1"
    by (rule exI [of _ 0])
  from statistics_from_last_frame [OF scenario_map_well_shaped h, of scenario_coords]
  have "\<exists>st. get_statistics scenario_coords scenario_map = Inr st
          \<and> stat_total_pixels st = 4
          \<and> stat_burned_pixels st = 1
          \<and> stat_burned_percentage st = 25
          \<and> stat_burned_pixels st
               < int (card {(y, x). y < dim_h scenario_map \<and> x < dim_w scenario_map
                              \<and> 0 \<le> compute_burn_time_matrix scenario_map ! y ! x})"
  proof (elim exE conjE)
    fix st
    assume st: "get_statistics scenario_coords scenario_map = Inr st"
      and a: "stat_total_pixels st = int (dim_h scenario_map * dim_w scenario_map)"
      and b: "stat_burned_pixels st
               = int (card {(y, x). y < dim_h scenario_map \<and> x < dim_w scenario_map
                              \<and> cells scenario_map ! (dim_t scenario_map - 1) ! y ! x = 2})"
      and c: "stat_burned_percentage st
               = of_int (stat_burned_pixels st) / of_int (stat_total_pixels st) * 100"
      and f: "(\<exists>y<dim_h scenario_map. \<exists>x<dim_w scenario_map.
                 cells scenario_map ! (dim_t scenario_map - 1) ! y ! x = 1) \<longrightarrow>
                stat_burned_pixels st
                  < int (card {(y, x). y < dim_h scenario_map \<and> x < dim_w scenario_map
                                 \<and> 0 \<le> compute_burn_time_matrix scenario_map ! y ! x})"
    from a tot have a': "stat_total_pixels st = 4" by simp
    from b [unfolded scenario_last_frame_counts(1)]
    have b': "stat_burned_pixels st = 1" by simp
    from c a' b' have c': "stat_burned_percentage st = 25" by simp
    from f burning have e': "stat_burned_pixels st
               < int (card {(y, x). y < dim_h scenario_map \<and> x < dim_w scenario_map
                              \<and> 0 \<le> compute_burn_time_matrix scenario_map ! y ! x})"
      by (rule mp)
    show ?thesis
      by (rule exI [of _ st]) (rule conjI [OF st conjI [OF a' conjI [OF b' conjI [OF c' e']]]])
  qed
  with scenario_map_well_shaped h burning show ?thesis by (intro conjI)
qed

end
